theory Spec2Isabelle
  imports Complex_Main "HOL-Library.Multiset"
begin

section \<open>Python values and exceptions\<close>

text \<open>
  The figure generator (\<^verbatim>\<open>core/figure_generator.py\<close>) works on numpy arrays of floats,
  Python lists and dicts. Floats are modelled by \<^typ>\<open>real\<close> (no rounding, no NaN, no
  infinity), Python ints by \<^typ>\<open>int\<close>, lengths by \<^typ>\<open>nat\<close>, and an exception
  by a value of \<open>exn\<close> that carries the text \<^verbatim>\<open>str(e)\<close> gives.
\<close>

datatype exn =
    FileNotFoundError string
  | FileExistsError string
  | NotADirectoryError string
  | IsADirectoryError string
  | OSError string
  | IndexError string
  | ValueError string
  | KeyError string
  | BrokenProcessPool string

fun str_exn :: "exn \<Rightarrow> string" where
  "str_exn (FileNotFoundError m) = m"
| "str_exn (FileExistsError m) = m"
| "str_exn (NotADirectoryError m) = m"
| "str_exn (IsADirectoryError m) = m"
| "str_exn (OSError m) = m"
| "str_exn (IndexError m) = m"
| "str_exn (ValueError m) = m"
| "str_exn (KeyError m) = m"
| "str_exn (BrokenProcessPool m) = m"

text \<open>\<^verbatim>\<open>int(v)\<close> on a float truncates towards zero.\<close>

definition py_int :: "real \<Rightarrow> int" where
  "py_int r = (if 0 \<le> r then \<lfloor>r\<rfloor> else \<lceil>r\<rceil>)"

text \<open>
  A slice \<^verbatim>\<open>xs[s:e]\<close>: a negative bound counts from the end, both bounds are
  clipped to \<open>[0, len(xs)]\<close>, and the slice is empty when the start is not before
  the stop.
\<close>

definition slice_bound :: "nat \<Rightarrow> int \<Rightarrow> nat" where
  "slice_bound n i = (if i < 0 then nat (max 0 (int n + i)) else min n (nat i))"

definition py_slice :: "'a list \<Rightarrow> int \<Rightarrow> int \<Rightarrow> 'a list" where
  "py_slice xs s e =
     (let a = slice_bound (length xs) s; b = slice_bound (length xs) e
      in if a < b then take (b - a) (drop a xs) else [])"

text \<open>\<^verbatim>\<open>xs[i]\<close> on a Python list: negative indices count from the end.\<close>

definition py_index :: "'a list \<Rightarrow> int \<Rightarrow> exn + 'a" where
  "py_index xs i =
     (if 0 \<le> i \<and> i < int (length xs) then Inr (xs ! nat i)
      else if i < 0 \<and> - int (length xs) \<le> i then Inr (xs ! nat (int (length xs) + i))
      else Inl (IndexError ''list index out of range''))"

section \<open>Track records\<close>

text \<open>
  A reversal is the dict of float attributes \<^verbatim>\<open>load_track_data\<close> builds for one
  \<^verbatim>\<open>reversal_<n>\<close> group; a track record is the dict it returns.
\<close>

type_synonym reversal = "string \<rightharpoonup> real"

record track_data =
  track_num :: int
  SpeedRunVel :: "real list"
  times_arr :: "real list"
  xpos :: "real list"
  ypos :: "real list"
  eti :: "real list"
  eset_name :: string
  lengthPerPixel :: real
  reversals :: "reversal list"

text \<open>
  \<^verbatim>\<open>int(rev.get('start_idx', 0))\<close> and \<^verbatim>\<open>int(rev.get('end_idx', d))\<close>, where the
  default \<open>d\<close> is \<^verbatim>\<open>len(times)\<close> or \<^verbatim>\<open>len(xpos)\<close>, depending on the caller.
\<close>

definition start_idx_of :: "reversal \<Rightarrow> int" where
  "start_idx_of rv = (case rv ''start_idx'' of None \<Rightarrow> 0 | Some v \<Rightarrow> py_int v)"

definition end_idx_of :: "nat \<Rightarrow> reversal \<Rightarrow> int" where
  "end_idx_of d rv = (case rv ''end_idx'' of None \<Rightarrow> int d | Some v \<Rightarrow> py_int v)"

section \<open>The reversal table of the time-series figure\<close>

record table_entry =
  entry_start :: real
  entry_end :: real
  entry_duration :: real
  entry_start_idx :: int
  entry_end_idx :: int

text \<open>The body of the loop of \<^verbatim>\<open>plot_dot_product\<close> that builds the table, for one reversal.\<close>

definition table_entry_of :: "real list \<Rightarrow> reversal \<Rightarrow> table_entry option" where
  "table_entry_of ts rv =
     (let start_idx = start_idx_of rv; end_idx = end_idx_of (length ts) rv
      in if 0 \<le> start_idx \<and> start_idx < int (length ts) \<and> 0 \<le> end_idx \<and> end_idx \<le> int (length ts)
         then (let rev_times = py_slice ts start_idx end_idx
               in if length rev_times > 0
                  then (let duration = last rev_times - hd rev_times
                        in if duration \<ge> 3.0
                           then Some \<lparr>entry_start = hd rev_times, entry_end = last rev_times,
                                      entry_duration = duration,
                                      entry_start_idx = start_idx, entry_end_idx = end_idx\<rparr>
                           else None)
                  else None)
         else None)"

fun reversal_table_data :: "real list \<Rightarrow> reversal list \<Rightarrow> table_entry list" where
  "reversal_table_data ts [] = []"
| "reversal_table_data ts (rv # rvs) =
     (case table_entry_of ts rv of
        None \<Rightarrow> reversal_table_data ts rvs
      | Some r \<Rightarrow> r # reversal_table_data ts rvs)"

text \<open>A window occupies a row of the table when some row carries its two indices.\<close>

definition in_table :: "real list \<Rightarrow> reversal list \<Rightarrow> reversal \<Rightarrow> bool" where
  "in_table ts rvs rv =
     list_ex (\<lambda>r. entry_start_idx r = start_idx_of rv \<and> entry_end_idx r = end_idx_of (length ts) rv)
       (reversal_table_data ts rvs)"

section \<open>Per-step speed and its normalisation range\<close>

text \<open>Sequencing of computations that may raise: the first exception ends the computation.\<close>

definition bind_exn :: "exn + 'a \<Rightarrow> ('a \<Rightarrow> exn + 'b) \<Rightarrow> exn + 'b" where
  "bind_exn m f = (case m of Inl ex \<Rightarrow> Inl ex | Inr v \<Rightarrow> f v)"

fun mapM_exn :: "('a \<Rightarrow> exn + 'b) \<Rightarrow> 'a list \<Rightarrow> exn + 'b list" where
  "mapM_exn f [] = Inr []"
| "mapM_exn f (x # xs) = bind_exn (f x) (\<lambda>v. bind_exn (mapM_exn f xs) (\<lambda>vs. Inr (v # vs)))"

text \<open>\<^verbatim>\<open>a[i]\<close> on a numpy array, for an index that is not negative.\<close>

definition np_get :: "real list \<Rightarrow> nat \<Rightarrow> exn + real" where
  "np_get a i = (if i < length a then Inr (a ! i) else Inl (IndexError ''index is out of bounds for axis 0''))"

text \<open>
  One round of the loop of \<^verbatim>\<open>plot_trajectory\<close> that computes the speeds:
  \<^verbatim>\<open>dx, dy = xpos[i+1] - xpos[i], ypos[i+1] - ypos[i]\<close>,
  \<^verbatim>\<open>dt = eti[i+1] - eti[i] if i+1 < len(eti) else 1\<close>,
  \<^verbatim>\<open>np.sqrt(dx**2 + dy**2) / dt * 10 if dt > 0 else 0\<close>.
\<close>

definition speed_at :: "real list \<Rightarrow> real list \<Rightarrow> real list \<Rightarrow> nat \<Rightarrow> exn + real" where
  "speed_at xs ys es i =
     bind_exn (np_get xs (i + 1)) (\<lambda>x1. bind_exn (np_get xs i) (\<lambda>x0.
     bind_exn (np_get ys (i + 1)) (\<lambda>y1. bind_exn (np_get ys i) (\<lambda>y0.
     bind_exn (if i + 1 < length es
               then bind_exn (np_get es (i + 1)) (\<lambda>e1. bind_exn (np_get es i) (\<lambda>e0. Inr (e1 - e0)))
               else Inr 1) (\<lambda>dt.
       (let dx = x1 - x0; dy = y1 - y0
        in Inr (if dt > 0 then sqrt (dx\<^sup>2 + dy\<^sup>2) / dt * 10 else 0)))))))"

text \<open>
  The speed the specification gives for the segment that starts at position \<open>i\<close>
  (section 4.2, per-step speed), with plain list indexing.
\<close>

definition speed_value :: "real list \<Rightarrow> real list \<Rightarrow> real list \<Rightarrow> nat \<Rightarrow> real" where
  "speed_value xs ys es i =
     (let dt = (if i + 1 < length es then es ! (i + 1) - es ! i else 1)
      in if dt > 0 then sqrt ((xs ! (i + 1) - xs ! i)\<^sup>2 + (ys ! (i + 1) - ys ! i)\<^sup>2) / dt * 10 else 0)"

text \<open>
  The loop runs over \<^verbatim>\<open>range(len(xpos) - 1)\<close>, which is empty when \<^verbatim>\<open>xpos\<close> is
  empty: the truncated subtraction on \<^typ>\<open>nat\<close> gives the same range.
\<close>

definition compute_speeds :: "real list \<Rightarrow> real list \<Rightarrow> real list \<Rightarrow> exn + real list" where
  "compute_speeds xs ys es = mapM_exn (speed_at xs ys es) [0..<length xs - 1]"

text \<open>\<^verbatim>\<open>a.min()\<close> and \<^verbatim>\<open>a.max()\<close> of numpy raise on an empty array.\<close>

fun np_min :: "real list \<Rightarrow> exn + real" where
  "np_min [] = Inl (ValueError ''zero-size array to reduction operation minimum which has no identity'')"
| "np_min (v # vs) = Inr (fold min vs v)"

fun np_max :: "real list \<Rightarrow> exn + real" where
  "np_max [] = Inl (ValueError ''zero-size array to reduction operation maximum which has no identity'')"
| "np_max (v # vs) = Inr (fold max vs v)"

text \<open>
  \<^verbatim>\<open>speed_min = speeds[speeds > 0].min() if np.any(speeds > 0) else 0\<close> and
  \<^verbatim>\<open>speed_max = speeds.max() if len(speeds) > 0 else 1\<close>.
\<close>

definition speed_min_of :: "real list \<Rightarrow> exn + real" where
  "speed_min_of speeds =
     (if list_ex (\<lambda>v. v > 0) speeds then np_min (filter (\<lambda>v. v > 0) speeds) else Inr 0)"

definition speed_max_of :: "real list \<Rightarrow> exn + real" where
  "speed_max_of speeds = (if length speeds > 0 then np_max speeds else Inr 1)"

text \<open>\<^verbatim>\<open>(speeds[i] - speed_min) / (speed_max - speed_min + 1e-10)\<close>\<close>

definition norm_denominator :: "real \<Rightarrow> real \<Rightarrow> real" where
  "norm_denominator smin smax = smax - smin + 1 / 10 ^ 10"

definition speed_norm :: "real list \<Rightarrow> real \<Rightarrow> real \<Rightarrow> nat \<Rightarrow> real" where
  "speed_norm speeds smin smax i = (speeds ! i - smin) / norm_denominator smin smax"

section \<open>The trajectory figure\<close>

text \<open>
  A segment is drawn either in the colour the speed colormap gives its normalised speed,
  or in the fixed colour \<^verbatim>\<open>uv_color\<close> of reversals.
\<close>

datatype line_color = speed_cmap real | uv_color

text \<open>
  The inner loop over the reversals, which stops at the first window that holds \<open>i\<close>:
  \<^verbatim>\<open>int(rev.get('start_idx', 0)) <= i < int(rev.get('end_idx', len(xpos)))\<close>.
\<close>

fun in_reversal :: "nat \<Rightarrow> nat \<Rightarrow> reversal list \<Rightarrow> bool" where
  "in_reversal m i [] = False"
| "in_reversal m i (rv # rvs) =
     (if start_idx_of rv \<le> int i \<and> int i < end_idx_of m rv then True else in_reversal m i rvs)"

text \<open>
  One round of the loop that plots the segments: nothing is drawn unless
  \<^verbatim>\<open>i < len(speeds) and speeds[i] > 0\<close>.
\<close>

definition segment_color :: "nat \<Rightarrow> reversal list \<Rightarrow> real list \<Rightarrow> real \<Rightarrow> real \<Rightarrow> nat \<Rightarrow> line_color option" where
  "segment_color m rvs speeds smin smax i =
     (if i < length speeds \<and> speeds ! i > 0
      then (let line_color = speed_cmap (speed_norm speeds smin smax i)
            in Some (if in_reversal m i rvs then uv_color else line_color))
      else None)"

fun plot_segments :: "nat \<Rightarrow> reversal list \<Rightarrow> real list \<Rightarrow> real \<Rightarrow> real \<Rightarrow> nat list \<Rightarrow> (nat \<times> line_color) list" where
  "plot_segments m rvs speeds smin smax [] = []"
| "plot_segments m rvs speeds smin smax (i # is) =
     (case segment_color m rvs speeds smin smax i of
        None \<Rightarrow> plot_segments m rvs speeds smin smax is
      | Some c \<Rightarrow> (i, c) # plot_segments m rvs speeds smin smax is)"

text \<open>
  The segments \<^verbatim>\<open>plot_trajectory\<close> draws, each with the index of its leading position:
  segment \<open>i\<close> joins positions \<open>i\<close> and \<open>i + 1\<close>.
\<close>

definition trajectory_segments :: "track_data \<Rightarrow> exn + (nat \<times> line_color) list" where
  "trajectory_segments td =
     bind_exn (compute_speeds (xpos td) (ypos td) (eti td)) (\<lambda>speeds.
     bind_exn (speed_min_of speeds) (\<lambda>smin.
     bind_exn (speed_max_of speeds) (\<lambda>smax.
       Inr (plot_segments (length (xpos td)) (reversals td) speeds smin smax
              [0..<length (xpos td) - 1]))))"

section \<open>Strings and paths\<close>

text \<open>\<^verbatim>\<open>str(n)\<close> of an int, as the f-strings of the source render it.\<close>

definition digit_char :: "nat \<Rightarrow> char" where
  "digit_char d = ''0123456789'' ! (d mod 10)"

function str_nat :: "nat \<Rightarrow> string" where
  "str_nat n = (if n < 10 then [digit_char n] else str_nat (n div 10) @ [digit_char (n mod 10)])"
  by pat_completeness auto
termination
  by (relation "measure (\<lambda>n. n)") auto

declare str_nat.simps [simp del]

definition str_int :: "int \<Rightarrow> string" where
  "str_int i = (if i < 0 then CHR ''-'' # str_nat (nat (- i)) else str_nat (nat i))"

text \<open>
  A path is the list of its components, \<^verbatim>\<open>p / name\<close> appends one, and the empty
  path is the directory the relative paths start from.
\<close>

type_synonym path = "string list"

fun path_str :: "path \<Rightarrow> string" where
  "path_str [] = ''.''"
| "path_str [c] = c"
| "path_str (c # cs) = c @ CHR ''/'' # path_str cs"

definition track_dir_name :: "int \<Rightarrow> string" where
  "track_dir_name n = ''track'' @ str_int n"

section \<open>Figures, outcomes and the file system\<close>

text \<open>
  matplotlib is taken to draw what it is given: a figure is the data the renderer hands
  to it. The time-series figure holds its title, the highlighted stretches of the signal
  and the rows of its table; the trajectory figure its title and coloured segments; the
  close-up its title, the plotted view and the shaded stretch.
\<close>

datatype figure =
    DotProductFigure string "(real list \<times> real list) list" "string list list"
  | TrajectoryFigure string "(nat \<times> line_color) list"
  | CloseupFigure string "real list \<times> real list" "real list \<times> real list"

datatype status = success | not_found | error | exception

record outcome =
  o_track_num :: int
  o_status :: status
  o_error :: "string option"
  o_reversals :: nat

record summary =
  s_tracks :: "outcome list"
  s_total_reversals :: nat

text \<open>
  Reading a data container with h5py is outside the model: a stored \<^verbatim>\<open>track_data.h5\<close>
  holds the record the loader builds from it, or the exception that reading it raises.
\<close>

datatype file_content =
    H5 "exn + track_data"
  | Png figure
  | Json summary
  | Other

text \<open>
  The observable effects, in the order they happen: the loader being entered, an image
  or the summary being written, and the orchestrator collecting the result of a unit.
\<close>

datatype event =
    LoaderInvoked path
  | ArtifactWritten path
  | UnitCollected int
  | SummaryWritten path

record world =
  dirs :: "path list"
  files :: "path \<rightharpoonup> file_content"
  trace :: "event list"

definition is_dir :: "world \<Rightarrow> path \<Rightarrow> bool" where
  "is_dir w p = (p = [] \<or> p \<in> set (dirs w))"

definition is_file :: "world \<Rightarrow> path \<Rightarrow> bool" where
  "is_file w p = (\<not> is_dir w p \<and> files w p \<noteq> None)"

definition path_exists :: "world \<Rightarrow> path \<Rightarrow> bool" where
  "path_exists w p = (is_dir w p \<or> is_file w p)"

definition log_event :: "event \<Rightarrow> world \<Rightarrow> world" where
  "log_event ev w = w\<lparr>trace := trace w @ [ev]\<rparr>"

text \<open>\<^verbatim>\<open>os.mkdir\<close>: the path must be new and its parent a directory.\<close>

definition os_mkdir :: "world \<Rightarrow> path \<Rightarrow> exn + world" where
  "os_mkdir w p =
     (if path_exists w p then Inl (FileExistsError (''[Errno 17] File exists: '' @ path_str p))
      else if is_file w (butlast p) then Inl (NotADirectoryError (''[Errno 20] Not a directory: '' @ path_str p))
      else if \<not> is_dir w (butlast p) then Inl (FileNotFoundError (''[Errno 2] No such file or directory: '' @ path_str p))
      else Inr (w\<lparr>dirs := dirs w @ [p]\<rparr>))"

text \<open>\<^verbatim>\<open>Path.mkdir(exist_ok=True)\<close>: an existing directory is left as it is.\<close>

definition mkdir_exist_ok :: "world \<Rightarrow> path \<Rightarrow> exn + world" where
  "mkdir_exist_ok w p =
     (case os_mkdir w p of
        Inr w' \<Rightarrow> Inr w'
      | Inl (FileNotFoundError m) \<Rightarrow> Inl (FileNotFoundError m)
      | Inl ex \<Rightarrow> (if is_dir w p then Inr w else Inl ex))"

text \<open>
  \<^verbatim>\<open>Path.mkdir(parents=True, exist_ok=True)\<close>: when the parent is missing it is made
  first, in the same way.
\<close>

function mkdir_parents :: "world \<Rightarrow> path \<Rightarrow> exn + world" where
  "mkdir_parents w p =
     (case os_mkdir w p of
        Inr w' \<Rightarrow> Inr w'
      | Inl (FileNotFoundError m) \<Rightarrow>
          (if p = [] then Inl (FileNotFoundError m)
           else bind_exn (mkdir_parents w (butlast p)) (\<lambda>w'. mkdir_exist_ok w' p))
      | Inl ex \<Rightarrow> (if is_dir w p then Inr w else Inl ex))"
  by pat_completeness auto
termination
  by (relation "measure (\<lambda>(w, p). length p)") auto

declare mkdir_parents.simps [simp del]

text \<open>
  Opening a file for writing and writing it (\<^verbatim>\<open>plt.savefig\<close>, and \<^verbatim>\<open>open(p, 'w')\<close>
  with \<^verbatim>\<open>json.dump\<close>): whatever the path held is replaced.
\<close>

definition write_file :: "world \<Rightarrow> path \<Rightarrow> file_content \<Rightarrow> exn + world" where
  "write_file w p c =
     (if is_dir w p then Inl (IsADirectoryError (''[Errno 21] Is a directory: '' @ path_str p))
      else if is_file w (butlast p) then Inl (NotADirectoryError (''[Errno 20] Not a directory: '' @ path_str p))
      else if \<not> is_dir w (butlast p) then Inl (FileNotFoundError (''[Errno 2] No such file or directory: '' @ path_str p))
      else Inr (w\<lparr>files := (files w)(p \<mapsto> c)\<rparr>))"

text \<open>
  A step that may raise and may change the world: the world it leaves is kept also
  when it raises, as files written before an exception stay written.
\<close>

type_synonym 'a io = "world \<Rightarrow> (exn + 'a) \<times> world"

definition bind_io :: "'a io \<Rightarrow> ('a \<Rightarrow> 'b io) \<Rightarrow> 'b io" where
  "bind_io m f w = (case m w of (Inl ex, w') \<Rightarrow> (Inl ex, w') | (Inr v, w') \<Rightarrow> f v w')"

definition savefig :: "path \<Rightarrow> figure \<Rightarrow> unit io" where
  "savefig p fig w =
     (case write_file w p (Png fig) of
        Inl ex \<Rightarrow> (Inl ex, w)
      | Inr w' \<Rightarrow> (Inr (), log_event (ArtifactWritten p) w'))"

section \<open>The loader and the three renderers\<close>

text \<open>
  \<^verbatim>\<open>load_track_data\<close>: raises \<^verbatim>\<open>FileNotFoundError\<close> when the directory holds no
  \<^verbatim>\<open>track_data.h5\<close>, and otherwise returns what reading the container gives.
\<close>

definition load_track_data :: "path \<Rightarrow> track_data io" where
  "load_track_data track_dir w =
     (let h5_file = track_dir @ [''track_data.h5''];
          w' = log_event (LoaderInvoked track_dir) w
      in if \<not> path_exists w h5_file
         then (Inl (FileNotFoundError (''No track_data.h5 found in '' @ path_str track_dir)), w')
         else (case (if is_dir w h5_file then None else files w h5_file) of
                 Some (H5 r) \<Rightarrow> (r, w')
               | _ \<Rightarrow> (Inl (OSError (''Unable to open file: '' @ path_str h5_file)), w')))"

text \<open>
  \<^verbatim>\<open>format_time_mmss\<close>: \<^verbatim>\<open>f"{int(seconds // 60):02d}:{int(seconds % 60):02d}"\<close>.
\<close>

definition fmt_02d :: "int \<Rightarrow> string" where
  "fmt_02d n = (if 0 \<le> n \<and> n < 10 then CHR ''0'' # str_int n else str_int n)"

definition format_time_mmss :: "real \<Rightarrow> string" where
  "format_time_mmss seconds =
     fmt_02d (py_int (of_int \<lfloor>seconds / 60\<rfloor>)) @ CHR '':'' #
     fmt_02d (py_int (seconds - 60 * of_int \<lfloor>seconds / 60\<rfloor>))"

text \<open>The red overlay of one table entry: both slices cut to the shorter one, if not empty.\<close>

definition highlight_of :: "track_data \<Rightarrow> table_entry \<Rightarrow> (real list \<times> real list) option" where
  "highlight_of td r =
     (let rev_times = py_slice (times_arr td) (entry_start_idx r) (entry_end_idx r);
          rev_speed = py_slice (SpeedRunVel td) (entry_start_idx r) (entry_end_idx r);
          min_len = min (length rev_times) (length rev_speed)
      in if min_len > 0 then Some (take min_len rev_times, take min_len rev_speed) else None)"

definition table_rows :: "table_entry list \<Rightarrow> string list list" where
  "table_rows tbl =
     map (\<lambda>(i, r). [CHR ''R'' # str_nat (i + 1), format_time_mmss (entry_start r),
                      format_time_mmss (entry_end r), format_time_mmss (entry_duration r)])
       (enumerate 0 tbl)"

definition dot_product_figure :: "track_data \<Rightarrow> figure" where
  "dot_product_figure td =
     (let tbl = reversal_table_data (times_arr td) (reversals td);
          title = ''Track '' @ str_int (track_num td) @ '' - Dot Product Over Time'' @
                  (if tbl = [] then '' (no reversals >3s)'' else [])
      in DotProductFigure title (List.map_filter (highlight_of td) tbl) (table_rows tbl))"

definition plot_dot_product :: "track_data \<Rightarrow> path \<Rightarrow> unit io" where
  "plot_dot_product td output_path = savefig output_path (dot_product_figure td)"

definition plot_trajectory :: "track_data \<Rightarrow> path \<Rightarrow> unit io" where
  "plot_trajectory td output_path w =
     (case trajectory_segments td of
        Inl ex \<Rightarrow> (Inl ex, w)
      | Inr segs \<Rightarrow>
          savefig output_path
            (TrajectoryFigure (''Track '' @ str_int (track_num td) @ '' - Trajectory'') segs) w)"

text \<open>
  The figure \<^verbatim>\<open>plot_reversal_closeup\<close> draws for a reversal. The padding is
  \<^verbatim>\<open>int(0.1 * (end_idx - start_idx))\<close>, a tenth of the window truncated towards zero.
\<close>

definition closeup_figure :: "track_data \<Rightarrow> int \<Rightarrow> reversal \<Rightarrow> figure" where
  "closeup_figure td reversal_idx rv =
     (let start_idx = start_idx_of rv; end_idx = end_idx_of (length (times_arr td)) rv;
          padding = py_int (of_int (end_idx - start_idx) / 10);
          view_start = max 0 (start_idx - padding);
          view_end = min (int (length (times_arr td))) (end_idx + padding)
      in CloseupFigure
           (''Track '' @ str_int (track_num td) @ '' - Reversal '' @ str_int (reversal_idx + 1))
           (py_slice (times_arr td) view_start view_end, py_slice (SpeedRunVel td) view_start view_end)
           (py_slice (times_arr td) start_idx end_idx, py_slice (SpeedRunVel td) start_idx end_idx))"

text \<open>
  \<^verbatim>\<open>plot_reversal_closeup\<close>: returns at once when \<^verbatim>\<open>len(reversals) <= reversal_idx\<close>;
  otherwise \<^verbatim>\<open>reversals[reversal_idx]\<close> is a list access, which takes a negative index
  from the end and raises when there is no such element.
\<close>

definition plot_reversal_closeup :: "track_data \<Rightarrow> int \<Rightarrow> path \<Rightarrow> unit io" where
  "plot_reversal_closeup td reversal_idx output_path w =
     (if int (length (reversals td)) \<le> reversal_idx then (Inr (), w)
      else (case py_index (reversals td) reversal_idx of
              Inl ex \<Rightarrow> (Inl ex, w)
            | Inr rv \<Rightarrow> savefig output_path (closeup_figure td reversal_idx rv) w))"

section \<open>The unit of work for one track\<close>

fun closeups_loop :: "track_data \<Rightarrow> path \<Rightarrow> nat list \<Rightarrow> unit io" where
  "closeups_loop td track_fig_dir [] w = (Inr (), w)"
| "closeups_loop td track_fig_dir (r_idx # rest) w =
     bind_io
       (plot_reversal_closeup td (int r_idx)
          (track_fig_dir @ [''reversal'' @ str_nat (r_idx + 1) @ ''_dot_product.png'']))
       (\<lambda>_. closeups_loop td track_fig_dir rest) w"

text \<open>The body of the \<^verbatim>\<open>try\<close> of \<^verbatim>\<open>process_single_track\<close>.\<close>

definition unit_body :: "int \<Rightarrow> path \<Rightarrow> path \<Rightarrow> outcome io" where
  "unit_body n track_dir figures_dir =
     bind_io (load_track_data track_dir) (\<lambda>data.
       (let track_fig_dir = figures_dir @ [track_dir_name n]
        in bind_io (\<lambda>w. case mkdir_exist_ok w track_fig_dir of
                            Inl ex \<Rightarrow> (Inl ex, w) | Inr w' \<Rightarrow> (Inr (), w')) (\<lambda>_.
           bind_io (plot_dot_product data (track_fig_dir @ [''dot_product.png''])) (\<lambda>_.
           bind_io (plot_trajectory data (track_fig_dir @ [''trajectory.png''])) (\<lambda>_.
           bind_io (closeups_loop data track_fig_dir [0..<length (reversals data)]) (\<lambda>_.
             (\<lambda>w. (Inr \<lparr>o_track_num = n, o_status = success, o_error = None,
                         o_reversals = length (reversals data)\<rparr>, w))))))))"

text \<open>
  \<^verbatim>\<open>process_single_track\<close>: a missing track directory is answered before the
  \<^verbatim>\<open>try\<close>; every exception of the body becomes an outcome.
\<close>

definition process_single_track :: "int \<times> path \<times> path \<Rightarrow> world \<Rightarrow> outcome \<times> world" where
  "process_single_track args w =
     (case args of (n, results_dir, figures_dir) \<Rightarrow>
        (let track_dir = results_dir @ [track_dir_name n]
         in if \<not> path_exists w track_dir
            then (\<lparr>o_track_num = n, o_status = not_found, o_error = None, o_reversals = 0\<rparr>, w)
            else (case unit_body n track_dir figures_dir w of
                    (Inr oc, w') \<Rightarrow> (oc, w')
                  | (Inl ex, w') \<Rightarrow>
                      (\<lparr>o_track_num = n, o_status = error, o_error = Some (str_exn ex),
                        o_reversals = 0\<rparr>, w'))))"

section \<open>The orchestrator\<close>

text \<open>
  Auto-detection of the tracks:
  \<^verbatim>\<open>sorted([int(d.name.replace('track', '')) for d in results_dir.iterdir()
           if d.is_dir() and d.name.startswith('track')])\<close>.
  \<^verbatim>\<open>s.replace('track', '')\<close> drops every occurrence found from left to right, and
  \<^verbatim>\<open>int(s)\<close> reads an optional sign and decimal digits, which may be separated by
  single underscores, between optional white space.
\<close>

function (sequential) remove_track :: "string \<Rightarrow> string" where
  "remove_track [] = []"
| "remove_track (c # cs) =
     (if take 5 (c # cs) = ''track'' then remove_track (drop 5 (c # cs)) else c # remove_track cs)"
  by pat_completeness auto
termination
  by (relation "measure length") auto

definition is_space :: "char \<Rightarrow> bool" where
  "is_space c = (let k = (of_char c :: nat) in (9 \<le> k \<and> k \<le> 13) \<or> (28 \<le> k \<and> k \<le> 32))"

definition is_digit :: "char \<Rightarrow> bool" where
  "is_digit c = (let k = (of_char c :: nat) in 48 \<le> k \<and> k \<le> 57)"

definition strip :: "string \<Rightarrow> string" where
  "strip s = rev (dropWhile is_space (rev (dropWhile is_space s)))"

fun dec_digits :: "bool \<Rightarrow> nat \<Rightarrow> string \<Rightarrow> nat option" where
  "dec_digits after_digit acc [] = (if after_digit then Some acc else None)"
| "dec_digits after_digit acc (c # cs) =
     (if is_digit c then dec_digits True (10 * acc + (of_char c - 48)) cs
      else if c = CHR ''_'' \<and> after_digit then dec_digits False acc cs
      else None)"

definition int_of_str :: "string \<Rightarrow> exn + int" where
  "int_of_str s =
     (let t = strip s;
          r = (case t of
                 [] \<Rightarrow> None
               | c # cs \<Rightarrow>
                   if c = CHR ''-'' then map_option (\<lambda>k. - int k) (dec_digits False 0 cs)
                   else if c = CHR ''+'' then map_option int (dec_digits False 0 cs)
                   else map_option int (dec_digits False 0 t))
      in case r of
           None \<Rightarrow> Inl (ValueError (''invalid literal for int() with base 10: '' @ s))
         | Some i \<Rightarrow> Inr i)"

text \<open>
  \<^verbatim>\<open>results_dir.iterdir()\<close> raises unless the path is a directory. Of its entries only
  the directories pass the filter, in the order the system lists them.
\<close>

definition discover_tracks :: "world \<Rightarrow> path \<Rightarrow> exn + int list" where
  "discover_tracks w results_dir =
     (if is_file w results_dir
      then Inl (NotADirectoryError (''[Errno 20] Not a directory: '' @ path_str results_dir))
      else if \<not> is_dir w results_dir
      then Inl (FileNotFoundError (''[Errno 2] No such file or directory: '' @ path_str results_dir))
      else bind_exn
             (mapM_exn (\<lambda>d. int_of_str (remove_track (last d)))
                (filter (\<lambda>d. d \<noteq> [] \<and> butlast d = results_dir \<and> take 5 (last d) = ''track'')
                   (remdups (dirs w))))
             (\<lambda>track_dirs. Inr (sort track_dirs)))"

definition resolve_tracks :: "world \<Rightarrow> path \<Rightarrow> int list option \<Rightarrow> exn + int list" where
  "resolve_tracks w results_dir tracks_arg =
     (case tracks_arg of None \<Rightarrow> discover_tracks w results_dir | Some tracks \<Rightarrow> Inr tracks)"

text \<open>The two totals of the summary.\<close>

definition success_count :: "outcome list \<Rightarrow> nat" where
  "success_count results = sum_list (map (\<lambda>r. 1) (filter (\<lambda>r. o_status r = success) results))"

definition total_reversals :: "outcome list \<Rightarrow> nat" where
  "total_reversals results = sum_list (map o_reversals results)"

text \<open>
  The worker pool. Units run in processes of their own and complete in an order the
  program does not control: \<open>sched\<close> lists the submitted units, by their position in
  \<^verbatim>\<open>args_list\<close>, in the order \<^verbatim>\<open>as_completed\<close> hands them over, and \<open>pool_fail\<close> tells
  for which of them \<^verbatim>\<open>future.result()\<close> raises instead of returning the outcome. A unit
  acts on the world when it completes; one that the pool loses leaves no effect.
\<close>

definition valid_schedule :: "int list \<Rightarrow> nat list \<Rightarrow> bool" where
  "valid_schedule tracks sched = (sort sched = [0..<length tracks])"

fun collect_units ::
  "path \<Rightarrow> path \<Rightarrow> int list \<Rightarrow> (nat \<Rightarrow> exn option) \<Rightarrow> nat list \<Rightarrow> world \<Rightarrow> outcome list \<times> world" where
  "collect_units results_dir figures_dir tracks pool_fail [] w = ([], w)"
| "collect_units results_dir figures_dir tracks pool_fail (k # ks) w =
     (let n = tracks ! k;
          (result, w1) =
            (case pool_fail k of
               None \<Rightarrow> process_single_track (n, results_dir, figures_dir) w
             | Some ex \<Rightarrow>
                 (\<lparr>o_track_num = n, o_status = exception, o_error = None, o_reversals = 0\<rparr>, w));
          (results, w2) =
            collect_units results_dir figures_dir tracks pool_fail ks (log_event (UnitCollected n) w1)
      in (result # results, w2))"

text \<open>
  \<^verbatim>\<open>generate_all_figures\<close>: makes the output directory, resolves the tracks, returns
  early when there are none, and otherwise collects every unit and writes
  \<^verbatim>\<open>summary.json\<close>.
\<close>

definition generate_all_figures ::
  "path \<Rightarrow> path \<Rightarrow> int list option \<Rightarrow> nat list \<Rightarrow> (nat \<Rightarrow> exn option) \<Rightarrow> unit io" where
  "generate_all_figures results_dir figures_dir tracks_arg sched pool_fail w =
     (case mkdir_parents w figures_dir of
        Inl ex \<Rightarrow> (Inl ex, w)
      | Inr w1 \<Rightarrow>
          (case resolve_tracks w1 results_dir tracks_arg of
             Inl ex \<Rightarrow> (Inl ex, w1)
           | Inr tracks \<Rightarrow>
               if tracks = [] then (Inr (), w1)
               else (case collect_units results_dir figures_dir tracks pool_fail sched w1 of
                       (results, w2) \<Rightarrow>
                         (case write_file w2 (figures_dir @ [''summary.json''])
                                 (Json \<lparr>s_tracks = results,
                                        s_total_reversals = total_reversals results\<rparr>) of
                            Inl ex \<Rightarrow> (Inl ex, w2)
                          | Inr w3 \<Rightarrow>
                              (Inr (), log_event (SummaryWritten (figures_dir @ [''summary.json''])) w3)))))"

section \<open>Notions used in the statements and proofs\<close>

text \<open>A directory without subdirectories: no listed directory has it as its parent.\<close>

definition no_subdirs :: "world \<Rightarrow> path \<Rightarrow> bool" where
  "no_subdirs w d = list_all (\<lambda>q. q = [] \<or> butlast q \<noteq> d) (dirs w)"

text \<open>
  The events a unit of work leaves in the trace, the tracks the orchestrator collected
  (in that order) according to a trace, and a world reached from another by events of
  units only.
\<close>

definition unit_event :: "event \<Rightarrow> bool" where
  "unit_event ev = (case ev of LoaderInvoked p \<Rightarrow> True | ArtifactWritten p \<Rightarrow> True | _ \<Rightarrow> False)"

fun collected :: "event list \<Rightarrow> int list" where
  "collected [] = []"
| "collected (UnitCollected n # evs) = n # collected evs"
| "collected (ev # evs) = collected evs"

definition unit_steps :: "world \<Rightarrow> world \<Rightarrow> bool" where
  "unit_steps w w' = (\<exists>evs. trace w' = trace w @ evs \<and> list_all unit_event evs)"

text \<open>
  An example: a results directory with one track, whose only reversal window spans a
  single sample (far less than 3 seconds), and an empty figures directory.
\<close>

definition short_track :: track_data where
  "short_track =
     \<lparr>track_num = 1, SpeedRunVel = [1, - 1, 1], times_arr = [0, 1, 2],
      xpos = [0, 1], ypos = [0, 0], eti = [0, 1],
      eset_name = ''unknown'', lengthPerPixel = 1 / 100,
      reversals = [[''start_idx'' \<mapsto> 1, ''end_idx'' \<mapsto> 2]]\<rparr>"

definition short_world :: world where
  "short_world =
     \<lparr>dirs = [[''results''], [''results'', ''track1''], [''figures'']],
      files = [[''results'', ''track1'', ''track_data.h5''] \<mapsto> H5 (Inr short_track)],
      trace = []\<rparr>"

section \<open>Slices and the reversal table\<close>

lemma slice_bound_nonneg: "0 \<le> i \<Longrightarrow> i \<le> int n \<Longrightarrow> slice_bound n i = nat i"
  by (simp add: slice_bound_def)

lemma py_slice_inner:
  assumes "0 \<le> s" "s < e" "e \<le> int (length xs)"
  shows "py_slice xs s e = take (nat e - nat s) (drop (nat s) xs)"
  using assms by (simp add: py_slice_def slice_bound_nonneg Let_def)

lemma py_slice_empty:
  assumes "0 \<le> s" "s \<le> int (length xs)" "0 \<le> e" "e \<le> int (length xs)" "e \<le> s"
  shows "py_slice xs s e = []"
  using assms by (simp add: py_slice_def slice_bound_nonneg Let_def)

lemma take_drop_ends:
  fixes a b :: nat
  assumes "a < b" "b \<le> length xs"
  shows "length (take (b - a) (drop a xs)) = b - a"
    and "hd (take (b - a) (drop a xs)) = xs ! a"
    and "last (take (b - a) (drop a xs)) = xs ! (b - 1)"
proof -
  let ?ys = "take (b - a) (drop a xs)"
  show len: "length ?ys = b - a" using assms by simp
  then have ne: "?ys \<noteq> []" using assms by auto
  have "hd ?ys = ?ys ! 0" using ne by (rule hd_conv_nth)
  also have "\<dots> = xs ! a" using assms by simp
  finally show "hd ?ys = xs ! a" .
  have "last ?ys = ?ys ! (length ?ys - 1)" using ne by (rule last_conv_nth)
  also have "\<dots> = ?ys ! (b - a - 1)" by (simp only: len)
  also have "\<dots> = xs ! (a + (b - a - 1))" using assms by simp
  also have "a + (b - a - 1) = b - 1" using assms by simp
  finally show "last ?ys = xs ! (b - 1)" .
qed

lemma py_slice_inner_props:
  assumes "0 \<le> s" "s < e" "e \<le> int (length xs)"
  shows "length (py_slice xs s e) = nat (e - s)"
    and "hd (py_slice xs s e) = xs ! nat s"
    and "last (py_slice xs s e) = xs ! nat (e - 1)"
proof -
  have ab: "nat s < nat e" "nat e \<le> length xs" using assms by linarith+
  have eq: "py_slice xs s e = take (nat e - nat s) (drop (nat s) xs)"
    by (rule py_slice_inner [OF assms])
  have 1: "nat e - nat s = nat (e - s)" using assms by linarith
  have 2: "nat e - 1 = nat (e - 1)" using assms by linarith
  show "length (py_slice xs s e) = nat (e - s)"
    unfolding eq using take_drop_ends(1) [OF ab] 1 by simp
  show "hd (py_slice xs s e) = xs ! nat s"
    unfolding eq using take_drop_ends(2) [OF ab] by simp
  show "last (py_slice xs s e) = xs ! nat (e - 1)"
    unfolding eq using take_drop_ends(3) [OF ab] 2 by simp
qed

lemma table_entry_of_Some_iff:
  "(\<exists>r. table_entry_of ts rv = Some r) \<longleftrightarrow>
     (0 \<le> start_idx_of rv \<and> start_idx_of rv < end_idx_of (length ts) rv \<and>
      end_idx_of (length ts) rv \<le> int (length ts) \<and>
      3 \<le> ts ! nat (end_idx_of (length ts) rv - 1) - ts ! nat (start_idx_of rv))"
proof (cases "0 \<le> start_idx_of rv \<and> start_idx_of rv < end_idx_of (length ts) rv \<and>
      end_idx_of (length ts) rv \<le> int (length ts)")
  case True
  then show ?thesis
    using py_slice_inner_props [of "start_idx_of rv" "end_idx_of (length ts) rv" ts]
    by (auto simp: table_entry_of_def Let_def)
next
  case False
  have "py_slice ts (start_idx_of rv) (end_idx_of (length ts) rv) = []"
    if "0 \<le> start_idx_of rv" "start_idx_of rv < int (length ts)" "0 \<le> end_idx_of (length ts) rv"
      "end_idx_of (length ts) rv \<le> int (length ts)"
    using that False by (intro py_slice_empty) auto
  then show ?thesis using False
    by (auto simp: table_entry_of_def Let_def)
qed

lemma table_entry_of_idx:
  "table_entry_of ts rv = Some r \<Longrightarrow>
     entry_start_idx r = start_idx_of rv \<and> entry_end_idx r = end_idx_of (length ts) rv"
  by (auto simp: table_entry_of_def Let_def split: if_splits)

lemma set_reversal_table_data:
  "set (reversal_table_data ts rvs) = {r. \<exists>rv \<in> set rvs. table_entry_of ts rv = Some r}"
  by (induction rvs) (auto split: option.splits)

lemma in_table_iff:
  "in_table ts rvs rv \<longleftrightarrow>
     (\<exists>rv' \<in> set rvs. \<exists>r. table_entry_of ts rv' = Some r \<and> start_idx_of rv' = start_idx_of rv
        \<and> end_idx_of (length ts) rv' = end_idx_of (length ts) rv)"
  unfolding in_table_def list_ex_iff set_reversal_table_data
  using table_entry_of_idx by fastforce

text \<open>
  Claim C1. Let \<open>s\<close> and \<open>e\<close> be the start and end index of a reversal of the track and
  \<open>N\<close> the number of time samples. When both lie in \<open>[0, N]\<close>, the window has a row
  in the table exactly when \<open>s < e\<close> and \<open>times[e - 1] - times[s] \<ge> 3\<close>. When moreover the elapsed time is non-decreasing (as the
  data model has it) and the two samples exist, the comparison with 3 alone decides it.
  A window with \<open>s = e\<close> never has a row. The witness shows the threshold at work: a
  span of exactly 3 seconds is in the table, one of 2.999 seconds is not.
\<close>

theorem table_row_iff_three_seconds:
  assumes "rv \<in> set rvs"
  shows "(0 \<le> start_idx_of rv \<and> start_idx_of rv \<le> int (length ts) \<and>
          0 \<le> end_idx_of (length ts) rv \<and> end_idx_of (length ts) rv \<le> int (length ts) \<longrightarrow>
            (in_table ts rvs rv \<longleftrightarrow>
               start_idx_of rv < end_idx_of (length ts) rv \<and>
               3 \<le> ts ! nat (end_idx_of (length ts) rv - 1) - ts ! nat (start_idx_of rv)))
       \<and> (0 \<le> start_idx_of rv \<and> start_idx_of rv < int (length ts) \<and>
          1 \<le> end_idx_of (length ts) rv \<and> end_idx_of (length ts) rv \<le> int (length ts) \<and> sorted ts \<longrightarrow>
            (in_table ts rvs rv \<longleftrightarrow>
               3 \<le> ts ! nat (end_idx_of (length ts) rv - 1) - ts ! nat (start_idx_of rv)))
       \<and> (start_idx_of rv = end_idx_of (length ts) rv \<longrightarrow> \<not> in_table ts rvs rv)"
proof -
  let ?s = "start_idx_of rv" and ?e = "end_idx_of (length ts) rv"
  have char: "in_table ts rvs rv \<longleftrightarrow>
      (0 \<le> ?s \<and> ?s < ?e \<and> ?e \<le> int (length ts) \<and> 3 \<le> ts ! nat (?e - 1) - ts ! nat ?s)"
    unfolding in_table_iff using table_entry_of_Some_iff [of ts] assms by metis
  have inverted: "ts ! nat (?e - 1) - ts ! nat ?s < 3"
    if "sorted ts" "1 \<le> ?e" "?e \<le> ?s" "?s < int (length ts)"
  proof -
    have "nat (?e - 1) \<le> nat ?s" "nat ?s < length ts" using that by linarith+
    then have "ts ! nat (?e - 1) \<le> ts ! nat ?s" using that(1) by (simp add: sorted_nth_mono)
    then show ?thesis by simp
  qed
  show ?thesis using char inverted by (intro conjI impI) force+
qed

theorem table_row_iff_three_seconds_witness:
  "in_table [0, 3/2, 3] [[''start_idx'' \<mapsto> 0, ''end_idx'' \<mapsto> 3]] [''start_idx'' \<mapsto> 0, ''end_idx'' \<mapsto> 3]
   \<and> \<not> in_table [0, 3/2, 2999/1000] [[''start_idx'' \<mapsto> 0, ''end_idx'' \<mapsto> 3]] [''start_idx'' \<mapsto> 0, ''end_idx'' \<mapsto> 3]
   \<and> \<not> in_table [0, 5, 9] [[''start_idx'' \<mapsto> 1, ''end_idx'' \<mapsto> 1]] [''start_idx'' \<mapsto> 1, ''end_idx'' \<mapsto> 1]"
  using table_row_iff_three_seconds [of "[''start_idx'' \<mapsto> 0, ''end_idx'' \<mapsto> 3]" "[[''start_idx'' \<mapsto> 0, ''end_idx'' \<mapsto> 3]]" "[0, 3/2, 3]"]
    table_row_iff_three_seconds [of "[''start_idx'' \<mapsto> 0, ''end_idx'' \<mapsto> 3]" "[[''start_idx'' \<mapsto> 0, ''end_idx'' \<mapsto> 3]]" "[0, 3/2, 2999/1000]"]
    table_row_iff_three_seconds [of "[''start_idx'' \<mapsto> 1, ''end_idx'' \<mapsto> 1]" "[[''start_idx'' \<mapsto> 1, ''end_idx'' \<mapsto> 1]]" "[0, 5, 9]"]
  by (simp add: start_idx_of_def end_idx_of_def py_int_def)

section \<open>Per-step speeds\<close>

lemma bind_exn_Inr [simp]: "bind_exn (Inr v) f = f v"
  by (simp add: bind_exn_def)

lemma bind_exn_Inl [simp]: "bind_exn (Inl ex) f = Inl ex"
  by (simp add: bind_exn_def)

lemma bind_exn_eq_Inr: "bind_exn m f = Inr w \<longleftrightarrow> (\<exists>v. m = Inr v \<and> f v = Inr w)"
  by (cases m) simp_all

lemma mapM_exn_total:
  "(\<And>x. x \<in> set xs \<Longrightarrow> f x = Inr (g x)) \<Longrightarrow> mapM_exn f xs = Inr (map g xs)"
  by (induction xs) simp_all

lemma mapM_exn_Inr:
  "mapM_exn f xs = Inr vs \<Longrightarrow> length vs = length xs \<and> (\<forall>i<length xs. f (xs ! i) = Inr (vs ! i))"
proof (induction xs arbitrary: vs)
  case Nil
  then show ?case by simp
next
  case (Cons x xs)
  from Cons.prems obtain v ws where v: "f x = Inr v" and ws: "mapM_exn f xs = Inr ws"
    and vs: "vs = v # ws"
    by (auto simp: bind_exn_eq_Inr)
  from Cons.IH [OF ws] show ?case
    using v vs by (auto simp: nth_Cons split: nat.splits)
qed

lemma speed_at_in_range:
  "i + 1 < length xs \<Longrightarrow> i + 1 < length ys \<Longrightarrow> speed_at xs ys es i = Inr (speed_value xs ys es i)"
  by (simp add: speed_at_def np_get_def speed_value_def Let_def)

lemma speed_at_Inr:
  "speed_at xs ys es i = Inr v \<Longrightarrow> v = speed_value xs ys es i"
  by (auto simp: speed_at_def np_get_def speed_value_def Let_def bind_exn_eq_Inr split: if_splits)

lemma speed_value_nonneg: "0 \<le> speed_value xs ys es i"
  by (simp add: speed_value_def Let_def)

lemma compute_speeds_total:
  assumes "length xs \<le> length ys"
  shows "compute_speeds xs ys es = Inr (map (speed_value xs ys es) [0..<length xs - 1])"
  unfolding compute_speeds_def
  by (rule mapM_exn_total) (use assms in \<open>auto intro!: speed_at_in_range\<close>)

lemma compute_speeds_Inr:
  assumes "compute_speeds xs ys es = Inr speeds"
  shows "speeds = map (speed_value xs ys es) [0..<length xs - 1]"
proof -
  from mapM_exn_Inr [OF assms [unfolded compute_speeds_def]]
  have len: "length speeds = length xs - 1"
    and at: "\<forall>i<length xs - 1. speed_at xs ys es i = Inr (speeds ! i)"
    by auto
  show ?thesis
  proof (rule nth_equalityI)
    show "length speeds = length (map (speed_value xs ys es) [0..<length xs - 1])"
      using len by simp
  next
    fix i assume "i < length speeds"
    then have "i < length xs - 1" using len by simp
    then show "speeds ! i = map (speed_value xs ys es) [0..<length xs - 1] ! i"
      using at speed_at_Inr by fastforce
  qed
qed

lemma compute_speeds_nonneg:
  "compute_speeds xs ys es = Inr speeds \<Longrightarrow> \<forall>v \<in> set speeds. 0 \<le> v"
  by (auto dest!: compute_speeds_Inr simp: speed_value_nonneg)

text \<open>
  Claim C2. For a track whose \<open>y\<close> series is as long as its \<open>x\<close> series (length \<open>M\<close>),
  the speed loop raises nothing and yields \<open>M - 1\<close> values (none when the series is empty:
  the range of the loop is empty then); every value is non-negative and is
  \<open>sqrt(dx\<^sup>2 + dy\<^sup>2) / dt * 10\<close> when \<open>dt > 0\<close> and \<open>0\<close> otherwise, where \<open>dt\<close> is the
  difference of the sample times when sample \<open>i + 1\<close> exists, and \<open>1\<close> if not.
\<close>

theorem speeds_length_nonneg_formula:
  assumes "length xs \<le> length ys"
  shows "\<exists>speeds. compute_speeds xs ys es = Inr speeds \<and> length speeds = length xs - 1 \<and>
           (\<forall>i<length speeds. 0 \<le> speeds ! i \<and>
              speeds ! i =
                (let dx = xs ! (i + 1) - xs ! i; dy = ys ! (i + 1) - ys ! i;
                     dt = (if i + 1 < length es then es ! (i + 1) - es ! i else 1)
                 in if dt > 0 then sqrt (dx\<^sup>2 + dy\<^sup>2) / dt * 10 else 0))"
  using compute_speeds_total [OF assms, of es]
  by (simp add: speed_value_nonneg) (simp add: speed_value_def Let_def)

theorem speeds_length_nonneg_formula_witness:
  "\<exists>speeds. compute_speeds [0, 3, 3] [0, 4, 4] [0, 2] = Inr speeds \<and> speeds = [25, 0]"
proof -
  have s: "sqrt 25 = 5" using real_sqrt_abs [of 5] by simp
  have l: "length [0, 3, 3 :: real] \<le> length [0, 4, 4 :: real]" by simp
  from speeds_length_nonneg_formula [OF l, of "[0, 2]"]
  obtain speeds where a: "compute_speeds [0, 3, 3] [0, 4, 4] [0, 2] = Inr speeds"
    and b: "length speeds = 2"
    and c: "\<forall>i<length speeds. speeds ! i =
                (let dx = [0, 3, 3] ! (i + 1) - [0, 3, 3] ! i; dy = [0, 4, 4] ! (i + 1) - [0, 4, 4] ! i;
                     dt = (if i + 1 < length [0, 2 :: real] then [0, 2] ! (i + 1) - [0, 2] ! i else 1)
                 in if dt > 0 then sqrt (dx\<^sup>2 + dy\<^sup>2) / dt * 10 else 0)"
    by auto
  from c b have "speeds ! 0 = 25" "speeds ! 1 = 0" by (simp_all add: s)
  with b have "speeds = [25, 0]"
    by (cases speeds; cases "tl speeds"; cases "tl (tl speeds)") auto
  with a show ?thesis by simp
qed

section \<open>The normalisation range\<close>

lemma np_min_Min:
  assumes "vs \<noteq> []"
  shows "np_min vs = Inr (Min (set vs))"
proof (cases vs)
  case Nil
  then show ?thesis using assms by simp
next
  case (Cons v ws)
  have "Min (set (v # ws)) = fold min ws v" by (rule Min.set_eq_fold)
  then show ?thesis using Cons by simp
qed

lemma np_max_Max:
  assumes "vs \<noteq> []"
  shows "np_max vs = Inr (Max (set vs))"
proof (cases vs)
  case Nil
  then show ?thesis using assms by simp
next
  case (Cons v ws)
  have "Max (set (v # ws)) = fold max ws v" by (rule Max.set_eq_fold)
  then show ?thesis using Cons by simp
qed

lemma speed_min_of_eq:
  "speed_min_of speeds =
     Inr (if {v \<in> set speeds. 0 < v} = {} then 0 else Min {v \<in> set speeds. 0 < v})"
proof (cases "list_ex (\<lambda>v. v > 0) speeds")
  case True
  then have ne: "filter (\<lambda>v. v > 0) speeds \<noteq> []"
    by (auto simp: list_ex_iff filter_empty_conv)
  have "set (filter (\<lambda>v. v > 0) speeds) = {v \<in> set speeds. 0 < v}" by auto
  with True ne show ?thesis
    by (auto simp: speed_min_of_def np_min_Min list_ex_iff)
next
  case False
  then show ?thesis by (auto simp: speed_min_of_def list_ex_iff)
qed

lemma speed_max_of_eq:
  "speed_max_of speeds = Inr (if speeds = [] then 1 else Max (set speeds))"
  by (simp add: speed_max_of_def np_max_Max)

lemma norm_denominator_pos:
  assumes nonneg: "\<forall>v \<in> set speeds. 0 \<le> v"
    and smin: "speed_min_of speeds = Inr smin" and smax: "speed_max_of speeds = Inr smax"
  shows "0 < norm_denominator smin smax"
proof -
  have "smin \<le> smax"
  proof (cases "{v \<in> set speeds. 0 < v} = {}")
    case True
    then have z: "smin = 0" using smin by (simp add: speed_min_of_eq)
    show ?thesis
    proof (cases "speeds = []")
      case True
      then show ?thesis using z smax by (simp add: speed_max_of_eq)
    next
      case False
      then have "smax \<in> set speeds" using smax Max_in [of "set speeds"]
        by (simp add: speed_max_of_eq)
      then show ?thesis using z nonneg by simp
    qed
  next
    case False
    then have ne: "speeds \<noteq> []" by auto
    have fin: "finite {v \<in> set speeds. 0 < v}" by simp
    have "Inr smin = (Inr (Min {v \<in> set speeds. 0 < v}) :: exn + real)"
      using smin False by (simp only: speed_min_of_eq if_False)
    then have "smin = Min {v \<in> set speeds. 0 < v}" by simp
    then have "smin \<in> {v \<in> set speeds. 0 < v}" using Min_in [OF fin False] by simp
    then have "smin \<in> set speeds" by simp
    moreover have "smax = Max (set speeds)" using smax ne by (simp add: speed_max_of_eq)
    ultimately show ?thesis by simp
  qed
  then show ?thesis by (simp add: norm_denominator_def add_pos_nonneg)
qed

text \<open>
  Claim C3. For the speeds derived from a track, \<open>speed_min\<close> is the least strictly
  positive speed (\<open>0\<close> if there is none), \<open>speed_max\<close> the greatest speed (\<open>1\<close> if there
  are no speeds), the normalised value of segment \<open>i\<close> is
  \<open>(speed[i] - speed_min) / (speed_max - speed_min + 1e-10)\<close>, and the denominator is
  never zero.
\<close>

theorem normalisation_range_and_denominator:
  assumes "compute_speeds xs ys es = Inr speeds"
  shows "\<exists>smin smax.
           speed_min_of speeds = Inr smin \<and> speed_max_of speeds = Inr smax \<and>
           smin = (if {v \<in> set speeds. 0 < v} = {} then 0 else Min {v \<in> set speeds. 0 < v}) \<and>
           smax = (if speeds = [] then 1 else Max (set speeds)) \<and>
           smax - smin + 1 / 10 ^ 10 \<noteq> 0 \<and>
           (\<forall>i<length speeds.
              speed_norm speeds smin smax i = (speeds ! i - smin) / (smax - smin + 1 / 10 ^ 10))"
proof -
  obtain smin smax where mm: "speed_min_of speeds = Inr smin" "speed_max_of speeds = Inr smax"
    by (simp add: speed_min_of_eq speed_max_of_eq)
  have "0 < norm_denominator smin smax"
    using norm_denominator_pos [OF compute_speeds_nonneg [OF assms] mm] .
  then show ?thesis using mm
    by (auto simp: speed_min_of_eq speed_max_of_eq norm_denominator_def speed_norm_def)
qed

theorem normalisation_range_and_denominator_witness:
  "compute_speeds [0, 1, 3] [0, 0, 0] [0, 1, 2] = Inr [10, 20] \<and>
   speed_min_of [10, 20] = Inr 10 \<and> speed_max_of [10, 20] = Inr 20 \<and>
   speed_norm [10, 20] 10 20 1 = 10 / (10 + 1 / 10 ^ 10)"
proof -
  have c: "compute_speeds [0, 1, 3] [0, 0, 0] [0, 1, 2] = Inr [10, 20]"
    by (simp add: compute_speeds_def speed_at_def np_get_def)
  from normalisation_range_and_denominator [OF c]
  show ?thesis using c by (auto simp: speed_min_of_def speed_max_of_def)
qed

section \<open>The segments of the trajectory\<close>

lemma in_reversal_iff:
  "in_reversal m i rvs \<longleftrightarrow> (\<exists>rv \<in> set rvs. start_idx_of rv \<le> int i \<and> int i < end_idx_of m rv)"
  by (induction rvs) auto

lemma plot_segments_indices:
  "map fst (plot_segments m rvs speeds smin smax is) =
     filter (\<lambda>i. i < length speeds \<and> 0 < speeds ! i) is"
  by (induction "is") (auto simp: segment_color_def Let_def)

lemma plot_segments_colors:
  "(i, c) \<in> set (plot_segments m rvs speeds smin smax is) \<Longrightarrow>
     segment_color m rvs speeds smin smax i = Some c"
  by (induction "is") (auto split: option.splits)

text \<open>
  Claim C4, as the code has it. The trajectory renderer draws exactly the segments
  \<open>i\<close> in \<open>[0, M - 2]\<close> whose speed is strictly positive, in increasing order. A drawn
  segment that some reversal window holds (\<open>start_idx \<le> i < end_idx\<close>, qualified or not)
  has the fixed reversal colour whatever its speed, every other drawn segment the colour
  of its normalised speed. A segment of speed \<open>0\<close> is not drawn at all.
\<close>

theorem drawn_segments:
  assumes "length (xpos td) \<le> length (ypos td)"
  shows "\<exists>speeds smin smax segs.
           compute_speeds (xpos td) (ypos td) (eti td) = Inr speeds \<and>
           speed_min_of speeds = Inr smin \<and> speed_max_of speeds = Inr smax \<and>
           trajectory_segments td = Inr segs \<and>
           map fst segs = filter (\<lambda>i. 0 < speeds ! i) [0..<length (xpos td) - 1] \<and>
           (\<forall>(i, c) \<in> set segs.
              c = (if \<exists>rv \<in> set (reversals td).
                        start_idx_of rv \<le> int i \<and> int i < end_idx_of (length (xpos td)) rv
                   then uv_color
                   else speed_cmap ((speeds ! i - smin) / (smax - smin + 1 / 10 ^ 10))))"
proof -
  let ?m = "length (xpos td)"
  obtain speeds where sp: "compute_speeds (xpos td) (ypos td) (eti td) = Inr speeds"
    and len: "length speeds = ?m - 1"
    using compute_speeds_total [OF assms] by simp
  obtain smin smax where mm: "speed_min_of speeds = Inr smin" "speed_max_of speeds = Inr smax"
    by (simp add: speed_min_of_eq speed_max_of_eq)
  let ?segs = "plot_segments ?m (reversals td) speeds smin smax [0..<?m - 1]"
  have tr: "trajectory_segments td = Inr ?segs"
    by (simp add: trajectory_segments_def sp mm)
  have "filter (\<lambda>i. i < length speeds \<and> 0 < speeds ! i) [0..<?m - 1] =
        filter (\<lambda>i. 0 < speeds ! i) [0..<?m - 1]"
    by (rule filter_cong) (simp_all add: len)
  then have idx: "map fst ?segs = filter (\<lambda>i. 0 < speeds ! i) [0..<?m - 1]"
    by (simp add: plot_segments_indices)
  have col: "c = (if \<exists>rv \<in> set (reversals td).
                        start_idx_of rv \<le> int i \<and> int i < end_idx_of ?m rv
                   then uv_color
                   else speed_cmap ((speeds ! i - smin) / (smax - smin + 1 / 10 ^ 10)))"
    if "(i, c) \<in> set ?segs" for i c
    using plot_segments_colors [OF that]
    by (auto simp: segment_color_def Let_def in_reversal_iff speed_norm_def norm_denominator_def
          split: if_splits)
  show ?thesis using sp mm tr idx col by blast
qed

theorem drawn_segments_witness:
  "trajectory_segments
     \<lparr>track_num = 1, SpeedRunVel = [0, 0, 0], times_arr = [0, 1, 2],
      xpos = [0, 1, 3], ypos = [0, 0, 0], eti = [0, 1, 2],
      eset_name = ''unknown'', lengthPerPixel = 1 / 100,
      reversals = [[''start_idx'' \<mapsto> 1, ''end_idx'' \<mapsto> 2]]\<rparr>
   = Inr [(0, speed_cmap 0), (1, uv_color)]"
proof -
  let ?td = "\<lparr>track_num = 1, SpeedRunVel = [0, 0, 0], times_arr = [0, 1, 2],
      xpos = [0, 1, 3], ypos = [0, 0, 0], eti = [0, 1, 2],
      eset_name = ''unknown'', lengthPerPixel = 1 / 100,
      reversals = [[''start_idx'' \<mapsto> 1, ''end_idx'' \<mapsto> (2::real)]]\<rparr>"
  have l: "length (xpos ?td) \<le> length (ypos ?td)" by simp
  have c: "compute_speeds (xpos ?td) (ypos ?td) (eti ?td) = Inr [10, 20]"
    by (simp add: compute_speeds_def speed_at_def np_get_def)
  from drawn_segments [OF l] obtain segs where
    tr: "trajectory_segments ?td = Inr segs"
    and idx: "map fst segs = [0, 1]"
    and col: "\<forall>(i, c) \<in> set segs.
              c = (if \<exists>rv \<in> set (reversals ?td).
                        start_idx_of rv \<le> int i \<and> int i < end_idx_of (length (xpos ?td)) rv
                   then uv_color
                   else speed_cmap (([10, 20] ! i - 10) / (20 - 10 + 1 / 10 ^ 10)))"
    unfolding c by (auto simp: speed_min_of_def speed_max_of_def)
  from idx obtain c0 c1 where segs: "segs = [(0, c0), (1, c1)]"
    by (cases segs; cases "tl segs"; cases "tl (tl segs)") auto
  from col segs have "c0 = speed_cmap 0" "c1 = uv_color"
    by (simp_all add: start_idx_of_def end_idx_of_def py_int_def)
  with tr segs show ?thesis by simp
qed

text \<open>
  The claim as stated asks for every segment to be drawn. In this track the first
  segment does not move (speed \<open>0\<close>) and lies in the reversal window \<open>[0, 2)\<close>: only the
  second segment is drawn.
\<close>

theorem stationary_segment_not_drawn:
  "trajectory_segments
     \<lparr>track_num = 1, SpeedRunVel = [0, 0, 0], times_arr = [0, 1, 2],
      xpos = [0, 0, 1], ypos = [0, 0, 0], eti = [0, 1, 2],
      eset_name = ''unknown'', lengthPerPixel = 1 / 100,
      reversals = [[''start_idx'' \<mapsto> 0, ''end_idx'' \<mapsto> 2]]\<rparr>
   = Inr [(1, uv_color)]"
  by (simp add: trajectory_segments_def compute_speeds_def speed_at_def np_get_def
        speed_min_of_def speed_max_of_def segment_color_def start_idx_of_def end_idx_of_def
        py_int_def)

section \<open>The close-up renderer and its index\<close>

lemma bind_io_Inr_iff:
  "bind_io m f w = (Inr v, w') \<longleftrightarrow> (\<exists>u w1. m w = (Inr u, w1) \<and> f u w1 = (Inr v, w'))"
  by (auto simp: bind_io_def split: prod.splits sum.splits)

text \<open>
  Claim C6. For a track record with \<open>k\<close> reversals and a reversal index of \<open>k\<close> or more,
  \<^verbatim>\<open>plot_reversal_closeup\<close> returns normally and leaves the world as it was: no file
  is written, nothing is added to the trace, nothing is raised.
\<close>

theorem closeup_out_of_range_noop:
  assumes "int (length (reversals td)) \<le> reversal_idx"
  shows "plot_reversal_closeup td reversal_idx output_path w = (Inr (), w)"
  using assms by (simp add: plot_reversal_closeup_def)

theorem closeup_out_of_range_noop_witness:
  "plot_reversal_closeup
     \<lparr>track_num = 1, SpeedRunVel = [1, - 1, 1], times_arr = [0, 1, 2],
      xpos = [0, 1], ypos = [0, 0], eti = [0, 1],
      eset_name = ''unknown'', lengthPerPixel = 1 / 100,
      reversals = [[''start_idx'' \<mapsto> 1, ''end_idx'' \<mapsto> 2]]\<rparr>
     1 [''figs'', ''track1'', ''reversal2_dot_product.png'']
     \<lparr>dirs = [[''figs''], [''figs'', ''track1'']], files = Map.empty, trace = []\<rparr>
   = (Inr (), \<lparr>dirs = [[''figs''], [''figs'', ''track1'']], files = Map.empty, trace = []\<rparr>)"
  by (rule closeup_out_of_range_noop) simp

lemma savefig_writable:
  assumes "is_dir w (butlast p)" "\<not> is_dir w p"
  shows "savefig p fig w =
           (Inr (), w\<lparr>files := (files w)(p \<mapsto> Png fig), trace := trace w @ [ArtifactWritten p]\<rparr>)"
  using assms by (simp add: savefig_def write_file_def log_event_def is_file_def)

lemma write_file_trace: "write_file w p c = Inr w1 \<Longrightarrow> trace w1 = trace w"
  by (auto simp: write_file_def split: if_splits)

lemma savefig_not_noop: "savefig p fig w \<noteq> (Inr (), w)"
proof
  assume a: "savefig p fig w = (Inr (), w)"
  then obtain w1 where w1: "write_file w p (Png fig) = Inr w1"
    and w: "w = log_event (ArtifactWritten p) w1"
    by (auto simp: savefig_def split: sum.splits)
  from arg_cong [OF w, of trace] have "trace w = trace w1 @ [ArtifactWritten p]"
    by (simp add: log_event_def)
  with write_file_trace [OF w1] show False by simp
qed

lemma str_nat_digit: "n < 10 \<Longrightarrow> str_nat n = [digit_char n]"
  by (simp add: str_nat.simps)

text \<open>
  Claim C10. The guard of the close-up renderer is one-sided. For a track record with
  \<open>k > 0\<close> reversals and a negative index the call is never a no-op. When
  \<open>- k \<le> idx < 0\<close> it saves the close-up of reversal \<open>k + idx\<close> (titled with
  \<open>idx + 1\<close>), which writes the image wherever the output path can be written; when
  \<open>idx < - k\<close> the list access raises \<^verbatim>\<open>IndexError\<close> and nothing is written.
\<close>

theorem closeup_negative_index:
  assumes "reversals td \<noteq> []" and "reversal_idx < 0"
  shows "plot_reversal_closeup td reversal_idx output_path w \<noteq> (Inr (), w) \<and>
         (- int (length (reversals td)) \<le> reversal_idx \<longrightarrow>
            plot_reversal_closeup td reversal_idx output_path w =
              savefig output_path
                (closeup_figure td reversal_idx
                   (reversals td ! nat (int (length (reversals td)) + reversal_idx))) w \<and>
            (is_dir w (butlast output_path) \<and> \<not> is_dir w output_path \<longrightarrow>
               plot_reversal_closeup td reversal_idx output_path w =
                 (Inr (), w\<lparr>files := (files w)(output_path \<mapsto>
                                 Png (closeup_figure td reversal_idx
                                   (reversals td ! nat (int (length (reversals td)) + reversal_idx)))),
                             trace := trace w @ [ArtifactWritten output_path]\<rparr>))) \<and>
         (reversal_idx < - int (length (reversals td)) \<longrightarrow>
            plot_reversal_closeup td reversal_idx output_path w =
              (Inl (IndexError ''list index out of range''), w))"
proof -
  have guard: "\<not> int (length (reversals td)) \<le> reversal_idx" using assms by simp
  have low: "plot_reversal_closeup td reversal_idx output_path w =
              (Inl (IndexError ''list index out of range''), w)"
    if "reversal_idx < - int (length (reversals td))"
    using that guard assms by (simp add: plot_reversal_closeup_def py_index_def)
  have mid: "plot_reversal_closeup td reversal_idx output_path w =
              savefig output_path
                (closeup_figure td reversal_idx
                   (reversals td ! nat (int (length (reversals td)) + reversal_idx))) w"
    if "- int (length (reversals td)) \<le> reversal_idx"
    using that guard assms by (simp add: plot_reversal_closeup_def py_index_def)
  have "plot_reversal_closeup td reversal_idx output_path w \<noteq> (Inr (), w)"
  proof (cases "- int (length (reversals td)) \<le> reversal_idx")
    case True
    then show ?thesis using mid savefig_not_noop by simp
  next
    case False
    then show ?thesis using low by simp
  qed
  then show ?thesis using low mid savefig_writable by auto
qed

theorem closeup_negative_index_witness:
  "plot_reversal_closeup
     \<lparr>track_num = 1, SpeedRunVel = [1, - 1, - 2, 1], times_arr = [0, 1, 2, 3],
      xpos = [0, 1], ypos = [0, 0], eti = [0, 1],
      eset_name = ''unknown'', lengthPerPixel = 1 / 100,
      reversals = [[''start_idx'' \<mapsto> 0, ''end_idx'' \<mapsto> 1], [''start_idx'' \<mapsto> 1, ''end_idx'' \<mapsto> 3]]\<rparr>
     (- 1) [''figs'', ''closeup.png'']
     \<lparr>dirs = [[''figs'']], files = Map.empty, trace = []\<rparr>
   = (Inr (),
      \<lparr>dirs = [[''figs'']],
       files = [[''figs'', ''closeup.png''] \<mapsto>
                  Png (CloseupFigure ''Track 1 - Reversal 0'' ([1, 2], [- 1, - 2]) ([1, 2], [- 1, - 2]))],
       trace = [ArtifactWritten [''figs'', ''closeup.png'']]\<rparr>)
   \<and> plot_reversal_closeup
     \<lparr>track_num = 1, SpeedRunVel = [1, - 1, - 2, 1], times_arr = [0, 1, 2, 3],
      xpos = [0, 1], ypos = [0, 0], eti = [0, 1],
      eset_name = ''unknown'', lengthPerPixel = 1 / 100,
      reversals = [[''start_idx'' \<mapsto> 0, ''end_idx'' \<mapsto> 1], [''start_idx'' \<mapsto> 1, ''end_idx'' \<mapsto> 3]]\<rparr>
     (- 3) [''figs'', ''closeup.png'']
     \<lparr>dirs = [[''figs'']], files = Map.empty, trace = []\<rparr>
   = (Inl (IndexError ''list index out of range''), \<lparr>dirs = [[''figs'']], files = Map.empty, trace = []\<rparr>)"
proof -
  let ?td = "\<lparr>track_num = 1, SpeedRunVel = [1, - 1, - 2, 1], times_arr = [0, 1, 2, 3],
      xpos = [0, 1], ypos = [0, 0], eti = [0, 1],
      eset_name = ''unknown'', lengthPerPixel = 1 / 100,
      reversals = [[''start_idx'' \<mapsto> 0, ''end_idx'' \<mapsto> 1], [''start_idx'' \<mapsto> 1, ''end_idx'' \<mapsto> (3::real)]]\<rparr>"
  let ?w = "\<lparr>dirs = [[''figs'']], files = Map.empty, trace = []\<rparr>"
  have ne: "reversals ?td \<noteq> []" by simp
  have fig: "closeup_figure ?td (- 1) [''start_idx'' \<mapsto> 1, ''end_idx'' \<mapsto> 3] =
      CloseupFigure ''Track 1 - Reversal 0'' ([1, 2], [- 1, - 2]) ([1, 2], [- 1, - 2])"
    by (simp add: closeup_figure_def start_idx_of_def end_idx_of_def py_int_def py_slice_def
          slice_bound_def str_int_def str_nat_digit digit_char_def)
  have n1: "(- 1 :: int) < 0" and n3: "(- 3 :: int) < 0" by simp_all
  have r1: "- int (length (reversals ?td)) \<le> - 1" by simp
  have r3: "- 3 < - int (length (reversals ?td))" by simp
  have wr: "is_dir ?w (butlast [''figs'', ''closeup.png'']) \<and> \<not> is_dir ?w [''figs'', ''closeup.png'']"
    by (simp add: is_dir_def)
  note t1 = closeup_negative_index [OF ne n1, of "[''figs'', ''closeup.png'']" ?w]
  note t3 = closeup_negative_index [OF ne n3, of "[''figs'', ''closeup.png'']" ?w]
  from t1 r1 wr have
    "plot_reversal_closeup ?td (- 1) [''figs'', ''closeup.png''] ?w =
       (Inr (), ?w\<lparr>files := (files ?w)([''figs'', ''closeup.png''] \<mapsto>
                      Png (closeup_figure ?td (- 1)
                        (reversals ?td ! nat (int (length (reversals ?td)) + - 1)))),
                  trace := trace ?w @ [ArtifactWritten [''figs'', ''closeup.png'']]\<rparr>)"
    by blast
  moreover from t3 r3 have
    "plot_reversal_closeup ?td (- 3) [''figs'', ''closeup.png''] ?w =
       (Inl (IndexError ''list index out of range''), ?w)"
    by blast
  ultimately show ?thesis by (simp add: fig)
qed

section \<open>The unit of work\<close>

lemma trace_log_event [simp]: "trace (log_event ev w) = trace w @ [ev]"
  by (simp add: log_event_def)

lemma dirs_log_event [simp]: "dirs (log_event ev w) = dirs w"
  by (simp add: log_event_def)

lemma files_log_event [simp]: "files (log_event ev w) = files w"
  by (simp add: log_event_def)

lemma is_dir_log_event [simp]: "is_dir (log_event ev w) p = is_dir w p"
  by (simp add: is_dir_def)

lemma is_file_log_event [simp]: "is_file (log_event ev w) p = is_file w p"
  by (simp add: is_file_def)

lemma butlast_child [simp]: "butlast (d @ [a, b]) = d @ [a]"
  by (simp add: butlast_append)

lemma bind_io_step: "m w = (Inr v, w1) \<Longrightarrow> bind_io m f w = f v w1"
  by (simp add: bind_io_def)

lemma load_track_data_ok:
  assumes "files w (track_dir @ [''track_data.h5'']) = Some (H5 r)"
    and "\<not> is_dir w (track_dir @ [''track_data.h5''])"
  shows "load_track_data track_dir w = (r, log_event (LoaderInvoked track_dir) w)"
  using assms by (simp add: load_track_data_def path_exists_def is_file_def Let_def)

lemma load_track_data_missing:
  assumes "\<not> path_exists w (track_dir @ [''track_data.h5''])"
  shows "load_track_data track_dir w =
           (Inl (FileNotFoundError (''No track_data.h5 found in '' @ path_str track_dir)),
            log_event (LoaderInvoked track_dir) w)"
  using assms by (simp add: load_track_data_def Let_def)

lemma mkdir_exist_ok_ok:
  assumes "is_dir w (butlast p)" and "\<not> is_file w p"
  shows "\<exists>w'. mkdir_exist_ok w p = Inr w' \<and> is_dir w' p \<and>
           (\<forall>q. is_dir w' q \<longleftrightarrow> is_dir w q \<or> q = p) \<and>
           files w' = files w \<and> trace w' = trace w"
proof (cases "is_dir w p")
  case True
  then show ?thesis
    by (auto simp: mkdir_exist_ok_def os_mkdir_def path_exists_def)
next
  case False
  then show ?thesis using assms
    by (auto simp: mkdir_exist_ok_def os_mkdir_def path_exists_def is_dir_def is_file_def)
qed

lemma no_subdirs_child:
  assumes "no_subdirs w d"
  shows "\<not> is_dir w (d @ [c])"
  using assms by (auto simp: no_subdirs_def is_dir_def list_all_iff)

lemma closeup_in_range_ok:
  assumes "r < length (reversals td)" and "is_dir w (butlast p)" and "\<not> is_dir w p"
  shows "\<exists>w'. plot_reversal_closeup td (int r) p w = (Inr (), w') \<and> dirs w' = dirs w"
  using assms by (simp add: plot_reversal_closeup_def py_index_def savefig_writable)

lemma closeups_loop_ok:
  assumes "is_dir w d" and "no_subdirs w d" and "\<forall>r \<in> set rs. r < length (reversals td)"
  shows "\<exists>w'. closeups_loop td d rs w = (Inr (), w') \<and> dirs w' = dirs w"
  using assms
proof (induction rs arbitrary: w)
  case Nil
  then show ?case by simp
next
  case (Cons r rs)
  let ?p = "d @ [''reversal'' @ str_nat (r + 1) @ ''_dot_product.png'']"
  have "\<not> is_dir w ?p" using Cons.prems(2) by (rule no_subdirs_child)
  moreover have "is_dir w (butlast ?p)" using Cons.prems(1) by simp
  ultimately obtain w1 where w1: "plot_reversal_closeup td (int r) ?p w = (Inr (), w1)"
    and d1: "dirs w1 = dirs w"
    using closeup_in_range_ok [of r td w ?p] Cons.prems(3) by auto
  have "is_dir w1 d" "no_subdirs w1 d"
    using Cons.prems d1 by (simp_all add: is_dir_def no_subdirs_def)
  from Cons.IH [OF this] Cons.prems(3) obtain w' where
    "closeups_loop td d rs w1 = (Inr (), w')" "dirs w' = dirs w1"
    by auto
  then show ?case using w1 d1 by (simp add: bind_io_def)
qed

lemma trajectory_segments_total:
  assumes "length (xpos td) \<le> length (ypos td)"
  shows "\<exists>segs. trajectory_segments td = Inr segs"
  using compute_speeds_total [OF assms]
  by (simp add: trajectory_segments_def speed_min_of_eq speed_max_of_eq)

lemma unit_body_ok:
  assumes h5: "files w (track_dir @ [''track_data.h5'']) = Some (H5 (Inr data))"
    and nd: "\<not> is_dir w (track_dir @ [''track_data.h5''])"
    and fd: "is_dir w figures_dir"
    and nf: "\<not> is_file w (figures_dir @ [track_dir_name n])"
    and ns: "no_subdirs w (figures_dir @ [track_dir_name n])"
    and xy: "length (xpos data) \<le> length (ypos data)"
  shows "\<exists>w'. unit_body n track_dir figures_dir w =
           (Inr \<lparr>o_track_num = n, o_status = success, o_error = None,
                 o_reversals = length (reversals data)\<rparr>, w') \<and>
           (\<forall>q. is_dir w' q \<longleftrightarrow> is_dir w q \<or> q = figures_dir @ [track_dir_name n])"
proof -
  let ?d = "figures_dir @ [track_dir_name n]"
  let ?w0 = "log_event (LoaderInvoked track_dir) w"
  have l: "load_track_data track_dir w = (Inr data, ?w0)"
    by (rule load_track_data_ok [OF h5 nd])
  have "is_dir ?w0 (butlast ?d)" "\<not> is_file ?w0 ?d" using fd nf by simp_all
  from mkdir_exist_ok_ok [OF this] obtain w1 where
    m: "mkdir_exist_ok ?w0 ?d = Inr w1" and d1: "is_dir w1 ?d"
    and dirs1: "\<forall>q. is_dir w1 q \<longleftrightarrow> is_dir ?w0 q \<or> q = ?d"
    by blast
  have ns1: "\<not> is_dir w1 (?d @ [c])" for c
    using dirs1 no_subdirs_child [OF ns, of c] by simp
  have nsd1: "no_subdirs w1 ?d"
    unfolding no_subdirs_def list_all_iff
  proof
    fix q assume q: "q \<in> set (dirs w1)"
    show "q = [] \<or> butlast q \<noteq> ?d"
    proof (rule ccontr)
      assume "\<not> (q = [] \<or> butlast q \<noteq> ?d)"
      then have "q = ?d @ [last q]" by (metis append_butlast_last_id)
      then show False using ns1 [of "last q"] q by (simp add: is_dir_def)
    qed
  qed
  let ?p1 = "?d @ [''dot_product.png'']" and ?p2 = "?d @ [''trajectory.png'']"
  let ?w2 = "w1\<lparr>files := (files w1)(?p1 \<mapsto> Png (dot_product_figure data)),
                trace := trace w1 @ [ArtifactWritten ?p1]\<rparr>"
  have p1: "plot_dot_product data ?p1 w1 = (Inr (), ?w2)"
    unfolding plot_dot_product_def by (rule savefig_writable) (use d1 ns1 in simp_all)
  have d2: "is_dir ?w2 ?d" and ns2: "\<not> is_dir ?w2 (?d @ [c])" for c
    using d1 ns1 [of c] by (simp_all add: is_dir_def)
  obtain segs where segs: "trajectory_segments data = Inr segs"
    using trajectory_segments_total [OF xy] by blast
  let ?fig = "TrajectoryFigure (''Track '' @ str_int (track_num data) @ '' - Trajectory'') segs"
  let ?w3 = "?w2\<lparr>files := (files ?w2)(?p2 \<mapsto> Png ?fig),
                 trace := trace ?w2 @ [ArtifactWritten ?p2]\<rparr>"
  have "savefig ?p2 ?fig ?w2 = (Inr (), ?w3)"
    by (rule savefig_writable) (use d2 ns2 in simp_all)
  then have p2: "plot_trajectory data ?p2 ?w2 = (Inr (), ?w3)"
    by (simp add: plot_trajectory_def segs)
  have "is_dir ?w3 ?d" "no_subdirs ?w3 ?d"
    using d1 nsd1 by (simp_all add: is_dir_def no_subdirs_def)
  from closeups_loop_ok [OF this, of "[0..<length (reversals data)]" data]
  obtain w4 where p3: "closeups_loop data ?d [0..<length (reversals data)] ?w3 = (Inr (), w4)"
    and dirs4: "dirs w4 = dirs ?w3"
    by auto
  have frame: "is_dir w4 q \<longleftrightarrow> is_dir w q \<or> q = ?d" for q
    using dirs1 dirs4 by (simp add: is_dir_def)
  let ?mk = "\<lambda>w. case mkdir_exist_ok w ?d of
                  Inl ex \<Rightarrow> (Inl ex, w) | Inr w' \<Rightarrow> (Inr (), w')"
  have ms: "?mk ?w0 = (Inr (), w1)"
    by (simp add: m)
  note steps =
    bind_io_step [of "load_track_data track_dir" w, OF l]
    bind_io_step [of ?mk ?w0, OF ms]
    bind_io_step [of "plot_dot_product data ?p1" w1, OF p1]
    bind_io_step [of "plot_trajectory data ?p2" ?w2, OF p2]
    bind_io_step [of "closeups_loop data ?d [0..<length (reversals data)]" ?w3, OF p3]
  have "unit_body n track_dir figures_dir w =
           (Inr \<lparr>o_track_num = n, o_status = success, o_error = None,
                 o_reversals = length (reversals data)\<rparr>, w4)"
    unfolding unit_body_def Let_def by (simp only: steps)
  with frame show ?thesis by blast
qed

lemma process_single_track_not_found:
  assumes "\<not> path_exists w (results_dir @ [track_dir_name n])"
  shows "process_single_track (n, results_dir, figures_dir) w =
           (\<lparr>o_track_num = n, o_status = not_found, o_error = None, o_reversals = 0\<rparr>, w)"
  using assms by (simp add: process_single_track_def)

lemma process_single_track_error:
  assumes "path_exists w (results_dir @ [track_dir_name n])"
    and "unit_body n (results_dir @ [track_dir_name n]) figures_dir w = (Inl ex, w')"
  shows "process_single_track (n, results_dir, figures_dir) w =
           (\<lparr>o_track_num = n, o_status = error, o_error = Some (str_exn ex), o_reversals = 0\<rparr>, w')"
  using assms by (simp add: process_single_track_def)

lemma process_single_track_success:
  assumes "path_exists w (results_dir @ [track_dir_name n])"
    and "unit_body n (results_dir @ [track_dir_name n]) figures_dir w = (Inr oc, w')"
  shows "process_single_track (n, results_dir, figures_dir) w = (oc, w')"
  using assms by (simp add: process_single_track_def)

lemma unit_body_no_h5:
  assumes "\<not> path_exists w (track_dir @ [''track_data.h5''])"
  shows "unit_body n track_dir figures_dir w =
           (Inl (FileNotFoundError (''No track_data.h5 found in '' @ path_str track_dir)),
            log_event (LoaderInvoked track_dir) w)"
  by (simp add: unit_body_def bind_io_def load_track_data_missing [OF assms])

lemma unit_body_Inr:
  assumes "unit_body n track_dir figures_dir w = (Inr oc, w')"
  shows "\<exists>data w1. load_track_data track_dir w = (Inr data, w1) \<and>
           oc = \<lparr>o_track_num = n, o_status = success, o_error = None,
                  o_reversals = length (reversals data)\<rparr>"
  using assms unfolding unit_body_def Let_def bind_io_Inr_iff by auto

lemma process_single_track_success_body:
  assumes "process_single_track (n, results_dir, figures_dir) w = (oc, w')"
    and "o_status oc = success"
  shows "unit_body n (results_dir @ [track_dir_name n]) figures_dir w = (Inr oc, w')"
proof (cases "path_exists w (results_dir @ [track_dir_name n])")
  case False
  from process_single_track_not_found [OF this, of figures_dir] assms show ?thesis by auto
next
  case True
  obtain r w1 where u: "unit_body n (results_dir @ [track_dir_name n]) figures_dir w = (r, w1)"
    by (cases "unit_body n (results_dir @ [track_dir_name n]) figures_dir w")
  show ?thesis
  proof (cases r)
    case (Inl ex)
    from process_single_track_error [OF True u [unfolded Inl]] assms show ?thesis by auto
  next
    case (Inr oc1)
    from process_single_track_success [OF True u [unfolded Inr]] assms show ?thesis
      using u Inr by simp
  qed
qed

lemma track_dir_name_7: "track_dir_name 7 = ''track7''"
  by (simp add: track_dir_name_def str_int_def str_nat_digit digit_char_def)

lemma track_dir_name_1: "track_dir_name 1 = ''track1''"
  by (simp add: track_dir_name_def str_int_def str_nat_digit digit_char_def)

text \<open>
  Claim C5, as the code has it. \<^verbatim>\<open>process_single_track\<close> always returns an outcome. When
  the track directory is missing, the outcome is \<open>not_found\<close> with no reversals and the
  world is untouched: the loader is not entered. When the directory exists but holds no
  \<^verbatim>\<open>track_data.h5\<close>, the loader is entered and raises \<^verbatim>\<open>FileNotFoundError\<close>, which the
  unit turns into the outcome \<open>error\<close> with that message and no reversals. Every
  exception of the body of the unit becomes an outcome \<open>error\<close> with the text of the
  exception and no reversals.
\<close>

theorem unit_outcome_missing_dir_or_data:
  "(\<not> path_exists w (results_dir @ [track_dir_name n]) \<longrightarrow>
      process_single_track (n, results_dir, figures_dir) w =
        (\<lparr>o_track_num = n, o_status = not_found, o_error = None, o_reversals = 0\<rparr>, w))
   \<and> (path_exists w (results_dir @ [track_dir_name n]) \<and>
        \<not> path_exists w ((results_dir @ [track_dir_name n]) @ [''track_data.h5'']) \<longrightarrow>
      process_single_track (n, results_dir, figures_dir) w =
        (\<lparr>o_track_num = n, o_status = error,
          o_error = Some (''No track_data.h5 found in '' @ path_str (results_dir @ [track_dir_name n])),
          o_reversals = 0\<rparr>,
         log_event (LoaderInvoked (results_dir @ [track_dir_name n])) w))
   \<and> (\<forall>ex w'. path_exists w (results_dir @ [track_dir_name n]) \<and>
        unit_body n (results_dir @ [track_dir_name n]) figures_dir w = (Inl ex, w') \<longrightarrow>
      process_single_track (n, results_dir, figures_dir) w =
        (\<lparr>o_track_num = n, o_status = error, o_error = Some (str_exn ex), o_reversals = 0\<rparr>, w'))"
proof (intro conjI impI allI)
  assume "\<not> path_exists w (results_dir @ [track_dir_name n])"
  then show "process_single_track (n, results_dir, figures_dir) w =
        (\<lparr>o_track_num = n, o_status = not_found, o_error = None, o_reversals = 0\<rparr>, w)"
    by (rule process_single_track_not_found)
next
  assume a: "path_exists w (results_dir @ [track_dir_name n]) \<and>
        \<not> path_exists w ((results_dir @ [track_dir_name n]) @ [''track_data.h5''])"
  from process_single_track_error [OF conjunct1 [OF a] unit_body_no_h5 [OF conjunct2 [OF a]]]
  show "process_single_track (n, results_dir, figures_dir) w =
        (\<lparr>o_track_num = n, o_status = error,
          o_error = Some (''No track_data.h5 found in '' @ path_str (results_dir @ [track_dir_name n])),
          o_reversals = 0\<rparr>,
         log_event (LoaderInvoked (results_dir @ [track_dir_name n])) w)"
    by simp
next
  fix ex w'
  assume "path_exists w (results_dir @ [track_dir_name n]) \<and>
        unit_body n (results_dir @ [track_dir_name n]) figures_dir w = (Inl ex, w')"
  then show "process_single_track (n, results_dir, figures_dir) w =
        (\<lparr>o_track_num = n, o_status = error, o_error = Some (str_exn ex), o_reversals = 0\<rparr>, w')"
    using process_single_track_error by blast
qed

theorem unit_outcome_missing_dir_or_data_witness:
  "process_single_track (7, [''results''], [''figures''])
     \<lparr>dirs = [[''results''], [''figures'']], files = Map.empty, trace = []\<rparr>
   = (\<lparr>o_track_num = 7, o_status = not_found, o_error = None, o_reversals = 0\<rparr>,
      \<lparr>dirs = [[''results''], [''figures'']], files = Map.empty, trace = []\<rparr>)
   \<and> process_single_track (7, [''results''], [''figures''])
     \<lparr>dirs = [[''results''], [''results'', ''track7''], [''figures'']], files = Map.empty, trace = []\<rparr>
   = (\<lparr>o_track_num = 7, o_status = error,
        o_error = Some ''No track_data.h5 found in results/track7'', o_reversals = 0\<rparr>,
      \<lparr>dirs = [[''results''], [''results'', ''track7''], [''figures'']], files = Map.empty,
        trace = [LoaderInvoked [''results'', ''track7'']]\<rparr>)"
proof -
  let ?w1 = "\<lparr>dirs = [[''results''], [''figures'']], files = Map.empty, trace = []\<rparr>"
  let ?w2 = "\<lparr>dirs = [[''results''], [''results'', ''track7''], [''figures'']], files = Map.empty, trace = []\<rparr>"
  have a: "\<not> path_exists ?w1 ([''results''] @ [track_dir_name 7])"
    by (simp add: path_exists_def is_dir_def is_file_def track_dir_name_7)
  have b: "path_exists ?w2 ([''results''] @ [track_dir_name 7]) \<and>
        \<not> path_exists ?w2 (([''results''] @ [track_dir_name 7]) @ [''track_data.h5''])"
    by (simp add: path_exists_def is_dir_def is_file_def track_dir_name_7)
  from unit_outcome_missing_dir_or_data [of ?w1 "[''results'']" 7 "[''figures'']"] a
  have "process_single_track (7, [''results''], [''figures'']) ?w1 =
      (\<lparr>o_track_num = 7, o_status = not_found, o_error = None, o_reversals = 0\<rparr>, ?w1)"
    by blast
  moreover
  from unit_outcome_missing_dir_or_data [of ?w2 "[''results'']" 7 "[''figures'']"] b
  have "process_single_track (7, [''results''], [''figures'']) ?w2 =
        (\<lparr>o_track_num = 7, o_status = error,
          o_error = Some (''No track_data.h5 found in '' @ path_str ([''results''] @ [track_dir_name 7])),
          o_reversals = 0\<rparr>,
         log_event (LoaderInvoked ([''results''] @ [track_dir_name 7])) ?w2)"
    by blast
  ultimately show ?thesis by (simp add: track_dir_name_7 log_event_def)
qed

text \<open>
  The claim as stated gives \<open>not_found\<close> to a directory without its data artifact. Here
  the directory of track 7 exists and is empty: the outcome is \<open>error\<close>.
\<close>

theorem missing_data_artifact_is_error:
  "path_exists
     \<lparr>dirs = [[''results''], [''results'', ''track7''], [''figures'']], files = Map.empty, trace = []\<rparr>
     [''results'', ''track7'']
   \<and> \<not> path_exists
     \<lparr>dirs = [[''results''], [''results'', ''track7''], [''figures'']], files = Map.empty, trace = []\<rparr>
     [''results'', ''track7'', ''track_data.h5'']
   \<and> o_status (fst (process_single_track (7, [''results''], [''figures''])
     \<lparr>dirs = [[''results''], [''results'', ''track7''], [''figures'']], files = Map.empty, trace = []\<rparr>))
   = error"
proof -
  let ?w2 = "\<lparr>dirs = [[''results''], [''results'', ''track7''], [''figures'']], files = Map.empty, trace = []\<rparr>"
  have a: "path_exists ?w2 ([''results''] @ [track_dir_name 7])"
    and b: "\<not> path_exists ?w2 (([''results''] @ [track_dir_name 7]) @ [''track_data.h5''])"
    by (simp_all add: path_exists_def is_dir_def is_file_def track_dir_name_7)
  from process_single_track_error [OF a unit_body_no_h5 [OF b]] a b show ?thesis
    by (simp add: track_dir_name_7)
qed

section \<open>Reversal counts and totals\<close>

lemma short_world_unit:
  assumes "dirs w = dirs short_world" and "files w = files short_world"
  shows "\<exists>w'. process_single_track (1, [''results''], [''figures'']) w =
          (\<lparr>o_track_num = 1, o_status = success, o_error = None, o_reversals = 1\<rparr>, w') \<and>
          (\<forall>q. is_dir w' q \<longleftrightarrow> is_dir w q \<or> q = [''figures'', ''track1''])"
proof -
  have ex: "path_exists w ([''results''] @ [track_dir_name 1])"
    using assms by (simp add: short_world_def path_exists_def is_dir_def track_dir_name_1)
  have "\<exists>w'. unit_body 1 ([''results''] @ [track_dir_name 1]) [''figures''] w =
           (Inr \<lparr>o_track_num = 1, o_status = success, o_error = None,
                 o_reversals = length (reversals short_track)\<rparr>, w') \<and>
           (\<forall>q. is_dir w' q \<longleftrightarrow> is_dir w q \<or> q = [''figures''] @ [track_dir_name 1])"
    by (rule unit_body_ok)
      (use assms in \<open>simp_all add: short_world_def short_track_def track_dir_name_1 is_dir_def
         is_file_def no_subdirs_def\<close>)
  then obtain w' where
    "unit_body 1 ([''results''] @ [track_dir_name 1]) [''figures''] w =
           (Inr \<lparr>o_track_num = 1, o_status = success, o_error = None, o_reversals = 1\<rparr>, w')"
    and "\<forall>q. is_dir w' q \<longleftrightarrow> is_dir w q \<or> q = [''figures'', ''track1'']"
    by (auto simp: short_track_def track_dir_name_1)
  with process_single_track_success [OF ex this(1)] show ?thesis by blast
qed

text \<open>
  Claim C8, as the code has it. The reversal count of a successful outcome is the number
  of all reversal windows the loader returned for the track, qualified or not, and the
  total of a run adds these counts.
\<close>

theorem reversal_count_is_all_loaded:
  assumes "process_single_track (n, results_dir, figures_dir) w = (oc, w')"
    and "o_status oc = success"
  shows "\<exists>data w1. load_track_data (results_dir @ [track_dir_name n]) w = (Inr data, w1) \<and>
           o_reversals oc = length (reversals data) \<and>
           total_reversals (oc # ocs) = length (reversals data) + total_reversals ocs"
proof -
  from unit_body_Inr [OF process_single_track_success_body [OF assms]]
  obtain data w1 where "load_track_data (results_dir @ [track_dir_name n]) w = (Inr data, w1)"
    and "oc = \<lparr>o_track_num = n, o_status = success, o_error = None,
                  o_reversals = length (reversals data)\<rparr>"
    by blast
  then show ?thesis by (auto simp: total_reversals_def)
qed

theorem reversal_count_is_all_loaded_witness:
  "o_status (fst (process_single_track (1, [''results''], [''figures'']) short_world)) = success \<and>
   o_reversals (fst (process_single_track (1, [''results''], [''figures'']) short_world)) =
     length (reversals short_track)"
proof -
  obtain oc w' where r: "process_single_track (1, [''results''], [''figures'']) short_world = (oc, w')"
    and s: "o_status oc = success"
    using short_world_unit [of short_world] by auto
  from reversal_count_is_all_loaded [OF r s, of "[]"]
  obtain data w1 where l: "load_track_data ([''results''] @ [track_dir_name 1]) short_world = (Inr data, w1)"
    and c: "o_reversals oc = length (reversals data)"
    by blast
  have "load_track_data ([''results''] @ [track_dir_name 1]) short_world =
          (Inr short_track, log_event (LoaderInvoked ([''results''] @ [track_dir_name 1])) short_world)"
    by (rule load_track_data_ok)
      (simp_all add: short_world_def track_dir_name_1 is_dir_def)
  with l have "data = short_track" by simp
  with r s c show ?thesis by simp
qed

text \<open>
  The claim as stated counts qualified reversals only. The example track has one reversal
  window and none that qualifies (its table is empty), and its outcome counts one.
\<close>

theorem unqualified_reversal_is_counted:
  "o_status (fst (process_single_track (1, [''results''], [''figures'']) short_world)) = success \<and>
   o_reversals (fst (process_single_track (1, [''results''], [''figures'']) short_world)) = 1 \<and>
   reversal_table_data (times_arr short_track) (reversals short_track) = []"
proof -
  have "reversal_table_data (times_arr short_track) (reversals short_track) = []"
    by (simp add: short_track_def table_entry_of_def start_idx_of_def end_idx_of_def py_int_def
          py_slice_def slice_bound_def)
  then show ?thesis using short_world_unit [of short_world] by auto
qed

lemma total_reversals_mset: "total_reversals rs = sum_mset (image_mset o_reversals (mset rs))"
  by (simp add: total_reversals_def sum_mset_sum_list [symmetric])

lemma success_count_mset:
  "success_count rs = size (filter_mset (\<lambda>r. o_status r = success) (mset rs))"
proof -
  have "sum_list (map (\<lambda>r. 1::nat) xs) = length xs" for xs :: "outcome list"
    by (induction xs) simp_all
  then show ?thesis
    by (simp add: success_count_def flip: mset_filter)
qed

text \<open>
  Claim C9. Two outcome sequences with the same outcomes, in any order, have the same
  total of reversals (summed over all outcomes, whatever their status) and the same
  number of successes.
\<close>

theorem totals_order_invariant:
  assumes "mset rs = mset rs'"
  shows "total_reversals rs = total_reversals rs' \<and> success_count rs = success_count rs'"
  using assms by (simp add: total_reversals_mset success_count_mset)

theorem totals_order_invariant_witness:
  "total_reversals
     [\<lparr>o_track_num = 1, o_status = success, o_error = None, o_reversals = 2\<rparr>,
      \<lparr>o_track_num = 2, o_status = not_found, o_error = None, o_reversals = 0\<rparr>,
      \<lparr>o_track_num = 3, o_status = error, o_error = Some ''boom'', o_reversals = 0\<rparr>]
   = total_reversals
     [\<lparr>o_track_num = 3, o_status = error, o_error = Some ''boom'', o_reversals = 0\<rparr>,
      \<lparr>o_track_num = 1, o_status = success, o_error = None, o_reversals = 2\<rparr>,
      \<lparr>o_track_num = 2, o_status = not_found, o_error = None, o_reversals = 0\<rparr>]
   \<and> success_count
     [\<lparr>o_track_num = 1, o_status = success, o_error = None, o_reversals = 2\<rparr>,
      \<lparr>o_track_num = 2, o_status = not_found, o_error = None, o_reversals = 0\<rparr>,
      \<lparr>o_track_num = 3, o_status = error, o_error = Some ''boom'', o_reversals = 0\<rparr>]
   = success_count
     [\<lparr>o_track_num = 3, o_status = error, o_error = Some ''boom'', o_reversals = 0\<rparr>,
      \<lparr>o_track_num = 1, o_status = success, o_error = None, o_reversals = 2\<rparr>,
      \<lparr>o_track_num = 2, o_status = not_found, o_error = None, o_reversals = 0\<rparr>]"
  by (rule totals_order_invariant) simp

section \<open>The summary of a run\<close>

lemma unit_steps_refl [simp]: "unit_steps w w"
  by (simp add: unit_steps_def)

lemma unit_steps_trans: "unit_steps w w1 \<Longrightarrow> unit_steps w1 w2 \<Longrightarrow> unit_steps w w2"
  by (auto simp: unit_steps_def)

lemma unit_steps_same_trace: "trace w' = trace w \<Longrightarrow> unit_steps w w'"
  by (simp add: unit_steps_def)

lemma unit_steps_bind:
  assumes "\<And>w. unit_steps w (snd (m w))" and "\<And>v w. unit_steps w (snd (f v w))"
  shows "unit_steps w (snd (bind_io m f w))"
proof (cases "m w")
  case (Pair r w1)
  then have 1: "unit_steps w w1" using assms(1) [of w] by simp
  show ?thesis
  proof (cases r)
    case (Inl ex)
    then show ?thesis using Pair 1 by (simp add: bind_io_def)
  next
    case (Inr v)
    then show ?thesis using Pair unit_steps_trans [OF 1 assms(2) [of w1 v]]
      by (simp add: bind_io_def)
  qed
qed

lemma os_mkdir_keeps:
  "os_mkdir w p = Inr w1 \<Longrightarrow> files w1 = files w \<and> trace w1 = trace w"
  by (auto simp: os_mkdir_def split: if_splits)

lemma mkdir_exist_ok_keeps:
  "mkdir_exist_ok w p = Inr w1 \<Longrightarrow> files w1 = files w \<and> trace w1 = trace w"
  by (auto simp: mkdir_exist_ok_def dest: os_mkdir_keeps split: sum.splits exn.splits if_splits)

lemma mkdir_parents_keeps:
  "mkdir_parents w p = Inr w1 \<Longrightarrow> files w1 = files w \<and> trace w1 = trace w"
proof (induction w p arbitrary: w1 rule: mkdir_parents.induct)
  case (1 w p)
  show ?case
  proof (cases "os_mkdir w p")
    case (Inr w2)
    then show ?thesis using "1.prems" os_mkdir_keeps [OF Inr]
      by (simp add: mkdir_parents.simps [of w p])
  next
    case (Inl ex)
    show ?thesis
    proof (cases "\<exists>m. ex = FileNotFoundError m")
      case True
      then obtain m where m: "ex = FileNotFoundError m" by blast
      with Inl "1.prems" have ne: "p \<noteq> []"
        and b: "bind_exn (mkdir_parents w (butlast p)) (\<lambda>w'. mkdir_exist_ok w' p) = Inr w1"
        by (auto simp: mkdir_parents.simps [of w p] split: if_splits)
      from b obtain w2 where w2: "mkdir_parents w (butlast p) = Inr w2"
        and e: "mkdir_exist_ok w2 p = Inr w1"
        by (auto simp: bind_exn_eq_Inr)
      from "1.IH" [OF Inl m ne w2] mkdir_exist_ok_keeps [OF e]
      show ?thesis by simp
    next
      case False
      with Inl "1.prems" have "w1 = w"
        by (cases ex) (auto simp: mkdir_parents.simps [of w p] split: if_splits)
      then show ?thesis by simp
    qed
  qed
qed

lemma savefig_unit_steps: "unit_steps w (snd (savefig p fig w))"
  by (auto simp: savefig_def unit_steps_def unit_event_def dest: write_file_trace split: sum.splits)

lemma load_unit_steps: "unit_steps w (snd (load_track_data d w))"
  by (auto simp: load_track_data_def Let_def unit_steps_def unit_event_def
        split: option.splits file_content.splits)

lemma closeup_unit_steps: "unit_steps w (snd (plot_reversal_closeup td i p w))"
  by (auto simp: plot_reversal_closeup_def savefig_unit_steps split: sum.splits)

lemma closeups_loop_unit_steps: "unit_steps w (snd (closeups_loop td d rs w))"
proof (induction rs arbitrary: w)
  case Nil
  then show ?case by simp
next
  case (Cons r rs)
  show ?case
    unfolding closeups_loop.simps
    by (rule unit_steps_bind) (simp_all add: closeup_unit_steps Cons.IH)
qed

lemma mkdir_step_unit_steps:
  "unit_steps w (snd (case mkdir_exist_ok w p of
                        Inl ex \<Rightarrow> (Inl ex, w) | Inr w' \<Rightarrow> (Inr (), w')))"
  by (auto split: sum.splits dest!: mkdir_exist_ok_keeps intro: unit_steps_same_trace)

lemma plot_dot_product_unit_steps: "unit_steps w (snd (plot_dot_product td p w))"
  by (simp add: plot_dot_product_def savefig_unit_steps)

lemma plot_trajectory_unit_steps: "unit_steps w (snd (plot_trajectory td p w))"
  by (auto simp: plot_trajectory_def savefig_unit_steps split: sum.splits)

lemma return_unit_steps: "unit_steps w (snd (r, w))"
  by simp

lemma unit_body_unit_steps: "unit_steps w (snd (unit_body n d fd w))"
  unfolding unit_body_def Let_def
  by (intro unit_steps_bind load_unit_steps mkdir_step_unit_steps plot_dot_product_unit_steps
        plot_trajectory_unit_steps closeups_loop_unit_steps return_unit_steps)

lemma process_single_track_unit_steps:
  "unit_steps w (snd (process_single_track args w))"
proof -
  obtain n rd fd where args: "args = (n, rd, fd)" by (cases args)
  show ?thesis
    using unit_body_unit_steps [of w n "rd @ [track_dir_name n]" fd]
    by (auto simp: args process_single_track_def Let_def split: prod.splits sum.splits)
qed

lemma collected_append: "collected (xs @ ys) = collected xs @ collected ys"
  by (induction xs rule: collected.induct) simp_all

lemma collected_unit_events: "list_all unit_event evs \<Longrightarrow> collected evs = []"
  by (induction evs rule: collected.induct) (simp_all add: unit_event_def)

lemma unit_events_no_summary: "list_all unit_event evs \<Longrightarrow> SummaryWritten p \<notin> set evs"
  by (auto simp: list_all_iff unit_event_def)

lemma collect_units_trace:
  "collect_units rd fd tracks pf ks w = (results, w2) \<Longrightarrow>
     \<exists>evs. trace w2 = trace w @ evs \<and> collected evs = map ((!) tracks) ks \<and>
           (\<forall>p. SummaryWritten p \<notin> set evs) \<and> length results = length ks"
proof (induction ks arbitrary: w results w2)
  case Nil
  then show ?case by simp
next
  case (Cons k ks)
  let ?n = "tracks ! k"
  obtain result w1 where step:
    "(case pf k of
        None \<Rightarrow> process_single_track (?n, rd, fd) w
      | Some ex \<Rightarrow> (\<lparr>o_track_num = ?n, o_status = exception, o_error = None, o_reversals = 0\<rparr>, w))
     = (result, w1)"
    by (cases "case pf k of
        None \<Rightarrow> process_single_track (?n, rd, fd) w
      | Some ex \<Rightarrow> (\<lparr>o_track_num = ?n, o_status = exception, o_error = None, o_reversals = 0\<rparr>, w)")
  obtain rest w3 where rest: "collect_units rd fd tracks pf ks (log_event (UnitCollected ?n) w1) = (rest, w3)"
    by (cases "collect_units rd fd tracks pf ks (log_event (UnitCollected ?n) w1)")
  from Cons.prems step rest have res: "results = result # rest" and w2: "w2 = w3"
    by (simp_all add: Let_def)
  have "unit_steps w w1"
  proof (cases "pf k")
    case None
    then show ?thesis using step process_single_track_unit_steps [of w "(?n, rd, fd)"] by simp
  next
    case (Some ex)
    then show ?thesis using step by auto
  qed
  then obtain evs1 where e1: "trace w1 = trace w @ evs1" and u1: "list_all unit_event evs1"
    by (auto simp: unit_steps_def)
  from Cons.IH [OF rest] obtain evs2 where
    e2: "trace w3 = trace (log_event (UnitCollected ?n) w1) @ evs2"
    and c2: "collected evs2 = map ((!) tracks) ks"
    and s2: "\<forall>p. SummaryWritten p \<notin> set evs2"
    and l2: "length rest = length ks"
    by blast
  let ?evs = "evs1 @ UnitCollected ?n # evs2"
  have "trace w2 = trace w @ ?evs" using e1 e2 w2 by simp
  moreover have "collected ?evs = map ((!) tracks) (k # ks)"
    using c2 collected_unit_events [OF u1] by (simp add: collected_append)
  moreover have "\<forall>p. SummaryWritten p \<notin> set ?evs"
    using s2 unit_events_no_summary [OF u1] by simp
  moreover have "length results = length (k # ks)" using res l2 by simp
  ultimately show ?case by blast
qed

lemma valid_schedule_all_units:
  assumes "valid_schedule tracks sched"
  shows "mset (map ((!) tracks) sched) = mset tracks"
proof -
  have "mset sched = mset (sort sched)" by simp
  also have "\<dots> = mset [0..<length tracks]" using assms by (simp add: valid_schedule_def)
  finally have "mset (map ((!) tracks) sched) = mset (map ((!) tracks) [0..<length tracks])"
    by (metis mset_map)
  then show ?thesis by (simp add: map_nth)
qed

lemma mkdir_parents_existing: "is_dir w p \<Longrightarrow> mkdir_parents w p = Inr w"
  by (simp add: mkdir_parents.simps [of w p] os_mkdir_def path_exists_def)

lemma short_world_run:
  "\<exists>w'. generate_all_figures [''results''] [''figures''] (Some [1, 7]) [1, 0] (\<lambda>k. None) short_world
          = (Inr (), w')"
proof -
  let ?fd = "[''figures'']" and ?rd = "[''results'']"
  have m: "mkdir_parents short_world ?fd = Inr short_world"
    by (rule mkdir_parents_existing) (simp add: is_dir_def short_world_def)
  have r: "resolve_tracks short_world ?rd (Some [1, 7]) = Inr [1, 7]"
    by (simp add: resolve_tracks_def)
  have "\<not> path_exists short_world (?rd @ [track_dir_name 7])"
    by (simp add: path_exists_def is_dir_def is_file_def short_world_def track_dir_name_7)
  note u7 = process_single_track_not_found [OF this, of ?fd]
  let ?w1 = "log_event (UnitCollected 7) short_world"
  obtain w2 where u1: "process_single_track (1, ?rd, ?fd) ?w1 =
          (\<lparr>o_track_num = 1, o_status = success, o_error = None, o_reversals = 1\<rparr>, w2)"
    and d2: "\<forall>q. is_dir w2 q \<longleftrightarrow> is_dir ?w1 q \<or> q = [''figures'', ''track1'']"
    using short_world_unit [of ?w1] by auto
  let ?results = "[\<lparr>o_track_num = 7, o_status = not_found, o_error = None, o_reversals = 0\<rparr>,
                   \<lparr>o_track_num = 1, o_status = success, o_error = None, o_reversals = 1\<rparr>]"
  let ?w3 = "log_event (UnitCollected 1) w2"
  have c: "collect_units ?rd ?fd [1, 7] (\<lambda>k. None) [Suc 0, 0] short_world = (?results, ?w3)"
    by (simp add: u7 u1)
  have "\<exists>w4. write_file ?w3 [''figures'', ''summary.json'']
              (Json \<lparr>s_tracks = ?results, s_total_reversals = total_reversals ?results\<rparr>) = Inr w4"
    using d2 by (simp add: write_file_def is_file_def) (simp add: is_dir_def short_world_def)
  then obtain w4 where wr: "write_file ?w3 [''figures'', ''summary.json'']
              (Json \<lparr>s_tracks = ?results, s_total_reversals = total_reversals ?results\<rparr>) = Inr w4"
    by blast
  show ?thesis using wr
    by (simp add: generate_all_figures_def m r c del: collect_units.simps)
qed

text \<open>
  Claim C7, as the code has it. Take a run of \<^verbatim>\<open>generate_all_figures\<close> that returns
  normally. When the resolved track list is empty, the run returns right after making
  the output directory: no summary is written, and the files and the trace are as
  before. Otherwise the trace of the run ends with the one and only write of
  \<^verbatim>\<open>summary.json\<close> under the output directory, after the results of all scheduled units
  were collected (every dispatched unit, when the schedule is one of the pool), and the
  file then holds the sequence of the collected outcomes and its total, whatever the
  path held before.
\<close>

theorem summary_written_once_after_units:
  assumes "generate_all_figures results_dir figures_dir tracks_arg sched pool_fail w = (Inr (), w')"
  shows "\<exists>w1 tracks.
           mkdir_parents w figures_dir = Inr w1 \<and>
           resolve_tracks w1 results_dir tracks_arg = Inr tracks \<and>
           (if tracks = [] then w' = w1 \<and> trace w' = trace w \<and> files w' = files w
            else \<exists>results w2 evs.
                   collect_units results_dir figures_dir tracks pool_fail sched w1 = (results, w2) \<and>
                   trace w' = trace w @ evs @ [SummaryWritten (figures_dir @ [''summary.json''])] \<and>
                   (\<forall>p. SummaryWritten p \<notin> set evs) \<and>
                   collected evs = map ((!) tracks) sched \<and>
                   (valid_schedule tracks sched \<longrightarrow> mset (collected evs) = mset tracks) \<and>
                   length results = length sched \<and>
                   files w' (figures_dir @ [''summary.json'']) =
                     Some (Json \<lparr>s_tracks = results, s_total_reversals = total_reversals results\<rparr>))"
proof -
  let ?sp = "figures_dir @ [''summary.json'']"
  from assms obtain w1 where m: "mkdir_parents w figures_dir = Inr w1"
    by (auto simp: generate_all_figures_def split: sum.splits)
  from assms m obtain tracks where r: "resolve_tracks w1 results_dir tracks_arg = Inr tracks"
    by (auto simp: generate_all_figures_def split: sum.splits)
  note k = mkdir_parents_keeps [OF m]
  show ?thesis
  proof (cases "tracks = []")
    case True
    with assms m r have "w' = w1" by (simp add: generate_all_figures_def)
    with True m r k show ?thesis by auto
  next
    case False
    obtain results w2 where c: "collect_units results_dir figures_dir tracks pool_fail sched w1 = (results, w2)"
      by (cases "collect_units results_dir figures_dir tracks pool_fail sched w1")
    let ?js = "Json \<lparr>s_tracks = results, s_total_reversals = total_reversals results\<rparr>"
    from assms m r False c obtain w3 where wr: "write_file w2 ?sp ?js = Inr w3"
      and w': "w' = log_event (SummaryWritten ?sp) w3"
      by (auto simp: generate_all_figures_def split: sum.splits)
    from wr have f3: "files w3 ?sp = Some ?js" and t3: "trace w3 = trace w2"
      by (auto simp: write_file_def split: if_splits)
    from collect_units_trace [OF c] obtain evs where
      e: "trace w2 = trace w1 @ evs" and ce: "collected evs = map ((!) tracks) sched"
      and ns: "\<forall>p. SummaryWritten p \<notin> set evs" and len: "length results = length sched"
      by blast
    have "trace w' = trace w @ evs @ [SummaryWritten ?sp]"
      using w' t3 e k by simp
    moreover have "files w' ?sp = Some ?js" using w' f3 by simp
    moreover have "valid_schedule tracks sched \<longrightarrow> mset (collected evs) = mset tracks"
      using ce valid_schedule_all_units by simp
    ultimately show ?thesis using m r False c ce ns len by auto
  qed
qed

theorem summary_written_once_after_units_witness:
  "fst (generate_all_figures [''results''] [''figures''] (Some [1, 7]) [1, 0] (\<lambda>k. None) short_world)
     = Inr () \<and>
   (\<exists>evs results.
      trace (snd (generate_all_figures [''results''] [''figures''] (Some [1, 7]) [1, 0] (\<lambda>k. None)
                    short_world))
        = evs @ [SummaryWritten [''figures'', ''summary.json'']] \<and>
      collected evs = [7, 1] \<and>
      (\<forall>p. SummaryWritten p \<notin> set evs) \<and>
      files (snd (generate_all_figures [''results''] [''figures''] (Some [1, 7]) [1, 0] (\<lambda>k. None)
                    short_world)) [''figures'', ''summary.json'']
        = Some (Json \<lparr>s_tracks = results, s_total_reversals = total_reversals results\<rparr>))"
proof -
  obtain w' where run:
    "generate_all_figures [''results''] [''figures''] (Some [1, 7]) [1, 0] (\<lambda>k. None) short_world
       = (Inr (), w')"
    using short_world_run by blast
  from summary_written_once_after_units [OF run]
  obtain w1 tracks where r: "resolve_tracks w1 [''results''] (Some [1, 7]) = Inr tracks"
    and rest: "if tracks = [] then w' = w1 \<and> trace w' = trace short_world \<and> files w' = files short_world
            else \<exists>results w2 evs.
                   collect_units [''results''] [''figures''] tracks (\<lambda>k. None) [1, 0] w1 = (results, w2) \<and>
                   trace w' = trace short_world @ evs @ [SummaryWritten ([''figures''] @ [''summary.json''])] \<and>
                   (\<forall>p. SummaryWritten p \<notin> set evs) \<and>
                   collected evs = map ((!) tracks) [1, 0] \<and>
                   (valid_schedule tracks [1, 0] \<longrightarrow> mset (collected evs) = mset tracks) \<and>
                   length results = length [1::nat, 0] \<and>
                   files w' ([''figures''] @ [''summary.json'']) =
                     Some (Json \<lparr>s_tracks = results, s_total_reversals = total_reversals results\<rparr>)"
    by blast
  from r have t: "tracks = [1, 7]" by (simp add: resolve_tracks_def)
  from rest obtain results evs where
    "trace w' = evs @ [SummaryWritten [''figures'', ''summary.json'']]"
    "\<forall>p. SummaryWritten p \<notin> set evs"
    "collected evs = [7, 1]"
    "files w' [''figures'', ''summary.json''] =
       Some (Json \<lparr>s_tracks = results, s_total_reversals = total_reversals results\<rparr>)"
    unfolding t by (auto simp: short_world_def)
  then show ?thesis unfolding run by auto
qed

text \<open>
  The claim as stated includes a run whose resolved track set is empty. With no track
  directory under the results directory, the run changes nothing: no summary is written.
\<close>

theorem no_tracks_no_summary:
  "generate_all_figures [''results''] [''figures''] None [] (\<lambda>k. None)
     \<lparr>dirs = [[''results''], [''figures'']], files = Map.empty, trace = []\<rparr>
   = (Inr (), \<lparr>dirs = [[''results''], [''figures'']], files = Map.empty, trace = []\<rparr>)"
proof -
  let ?w = "\<lparr>dirs = [[''results''], [''figures'']], files = Map.empty, trace = []\<rparr>"
  have m: "mkdir_parents ?w [''figures''] = Inr ?w"
    by (rule mkdir_parents_existing) (simp add: is_dir_def)
  have r: "resolve_tracks ?w [''results''] None = Inr []"
    by (simp add: resolve_tracks_def discover_tracks_def is_file_def is_dir_def)
  show ?thesis by (simp add: generate_all_figures_def m r)
qed

end
